theory Spec2Isabelle
  imports Main "HOL-Library.Word" "HOL-Library.Sublist"
begin

unbundle bit_operations_syntax

section \<open>JavaScript strings and values\<close>

text \<open>
  A JavaScript string is a sequence of UTF-16 code units; a response body is a sequence
  of bytes. String literals of the script are ASCII, written through \<open>lit\<close>.
\<close>

type_synonym byte = "8 word"
type_synonym code_unit = "16 word"
type_synonym jsstring = "code_unit list"

definition lit :: "string \<Rightarrow> jsstring" where
  "lit s = map (\<lambda>c. of_char c) s"

text \<open>
  \<^verbatim>\<open>String.prototype.trim\<close> strips the code units that ECMAScript calls WhiteSpace
  or LineTerminator from both ends.
\<close>

definition is_white_space :: "code_unit \<Rightarrow> bool" where
  "is_white_space c \<longleftrightarrow>
     c = 0x0009 \<or> c = 0x000A \<or> c = 0x000B \<or> c = 0x000C \<or> c = 0x000D \<or> c = 0x0020 \<or>
     c = 0x00A0 \<or> c = 0x1680 \<or> (0x2000 \<le> c \<and> c \<le> 0x200A) \<or> c = 0x2028 \<or>
     c = 0x2029 \<or> c = 0x202F \<or> c = 0x205F \<or> c = 0x3000 \<or> c = 0xFEFF"

definition trim :: "jsstring \<Rightarrow> jsstring" where
  "trim s = rev (dropWhile is_white_space (rev (dropWhile is_white_space s)))"

text \<open>
  The values a \<^verbatim>\<open>catch\<close> clause can receive here: an error object (\<^verbatim>\<open>Error\<close>,
  \<^verbatim>\<open>TypeError\<close>, \<^verbatim>\<open>DOMException\<close>, ...) with its \<^verbatim>\<open>name\<close> and \<^verbatim>\<open>message\<close>,
  a thrown string, \<^verbatim>\<open>undefined\<close> or \<^verbatim>\<open>null\<close>.
\<close>

datatype js_value =
    Undefined
  | Null
  | Str jsstring
  | ErrorObject (error_name: jsstring) (error_message: jsstring)

text \<open>\<^verbatim>\<open>e?.message\<close>\<close>

fun optional_message :: "js_value \<Rightarrow> js_value" where
  "optional_message Undefined = Undefined"
| "optional_message Null = Undefined"
| "optional_message (Str s) = Undefined"
| "optional_message (ErrorObject n m) = Str m"

fun truthy :: "js_value \<Rightarrow> bool" where
  "truthy Undefined = False"
| "truthy Null = False"
| "truthy (Str s) = (s \<noteq> [])"
| "truthy (ErrorObject n m) = True"

text \<open>\<^verbatim>\<open>a || b\<close>\<close>

definition js_or :: "js_value \<Rightarrow> js_value \<Rightarrow> js_value" where
  "js_or a b = (if truthy a then a else b)"

text \<open>
  The string conversion applied by \<^verbatim>\<open>'...' + v\<close>; for an error object this is
  \<^verbatim>\<open>Error.prototype.toString\<close>.
\<close>

fun ToString :: "js_value \<Rightarrow> jsstring" where
  "ToString Undefined = lit ''undefined''"
| "ToString Null = lit ''null''"
| "ToString (Str s) = s"
| "ToString (ErrorObject n m) =
     (if n = [] then m else if m = [] then n else n @ lit '': '' @ m)"

text \<open>The decimal rendering of a non-negative integer, as in \<^verbatim>\<open>`${res.status}`\<close>.\<close>

fun Number_toString :: "nat \<Rightarrow> jsstring" where
  "Number_toString n =
     (if n < 10 then [of_nat (48 + n)]
      else Number_toString (n div 10) @ [of_nat (48 + n mod 10)])"

declare Number_toString.simps [simp del]

subsection \<open>\<^verbatim>\<open>JSON.stringify({ prompt })\<close>\<close>

definition hex_digit :: "code_unit \<Rightarrow> code_unit" where
  "hex_digit n = (if n < 10 then 48 + n else 87 + n)"

definition UnicodeEscape :: "code_unit \<Rightarrow> jsstring" where
  "UnicodeEscape c =
     lit [CHR 0x5C, CHR ''u''] @
     map (\<lambda>k. hex_digit (drop_bit k c AND 0xF)) [12, 8, 4, 0]"

definition is_leading_surrogate :: "code_unit \<Rightarrow> bool" where
  "is_leading_surrogate c \<longleftrightarrow> 0xD800 \<le> c \<and> c \<le> 0xDBFF"

definition is_trailing_surrogate :: "code_unit \<Rightarrow> bool" where
  "is_trailing_surrogate c \<longleftrightarrow> 0xDC00 \<le> c \<and> c \<le> 0xDFFF"

definition escape_unit :: "code_unit \<Rightarrow> jsstring" where
  "escape_unit c =
     (if c = 0x08 then lit [CHR 0x5C, CHR ''b'']
      else if c = 0x09 then lit [CHR 0x5C, CHR ''t'']
      else if c = 0x0A then lit [CHR 0x5C, CHR ''n'']
      else if c = 0x0C then lit [CHR 0x5C, CHR ''f'']
      else if c = 0x0D then lit [CHR 0x5C, CHR ''r'']
      else if c = 0x22 then lit [CHR 0x5C, CHR 0x22]
      else if c = 0x5C then lit [CHR 0x5C, CHR 0x5C]
      else if c < 0x20 \<or> is_leading_surrogate c \<or> is_trailing_surrogate c
        then UnicodeEscape c
      else [c])"

fun escape_units :: "jsstring \<Rightarrow> jsstring" where
  "escape_units [] = []"
| "escape_units [c] = escape_unit c"
| "escape_units (c # c' # cs) =
     (if is_leading_surrogate c \<and> is_trailing_surrogate c'
      then c # c' # escape_units cs
      else escape_unit c @ escape_units (c' # cs))"

definition QuoteJSONString :: "jsstring \<Rightarrow> jsstring" where
  "QuoteJSONString s = lit [CHR 0x22] @ escape_units s @ lit [CHR 0x22]"

text \<open>The serialisation of an object with the single string property \<^verbatim>\<open>prompt\<close>.\<close>

definition JSON_stringify_prompt :: "jsstring \<Rightarrow> jsstring" where
  "JSON_stringify_prompt p =
     lit ([CHR ''{'', CHR 0x22] @ ''prompt'' @ [CHR 0x22, CHR '':'']) @
     QuoteJSONString p @ lit ''}''"

section \<open>The platform's \<^verbatim>\<open>TextDecoder\<close>\<close>

text \<open>
  The script decodes the body with the browser's \<^verbatim>\<open>TextDecoder\<close>, which is not part of
  the repository. \<^verbatim>\<open>new TextDecoder()\<close> is the UTF-8 decoder of the Encoding Standard
  in replacement error mode, with the byte order mark not ignored; the definitions below
  follow the standard's algorithms step by step. The decoder's handler keeps the code
  point under construction between bytes, and so between calls of \<^verbatim>\<open>decode\<close>.
\<close>

type_synonym code_point = "32 word"

record utf8_decoder =
  code_point :: code_point
  bytes_seen :: nat
  bytes_needed :: nat
  lower_boundary :: byte
  upper_boundary :: byte

definition utf8_decoder_new :: utf8_decoder where
  "utf8_decoder_new =
     \<lparr>code_point = 0, bytes_seen = 0, bytes_needed = 0,
      lower_boundary = 0x80, upper_boundary = 0xBF\<rparr>"

datatype handler_result = Finished | Continue | Error | Item code_point

text \<open>
  The handler on one byte. The third component says whether the byte is restored to the
  queue, to be read again.
\<close>

definition utf8_handler :: "utf8_decoder \<Rightarrow> byte \<Rightarrow> utf8_decoder \<times> handler_result \<times> bool" where
  "utf8_handler d b =
     (if bytes_needed d = 0 then
        (if b \<le> 0x7F then (d, Item (ucast b), False)
         else if 0xC2 \<le> b \<and> b \<le> 0xDF then
           (d\<lparr>bytes_needed := 1, code_point := ucast (b AND 0x1F)\<rparr>, Continue, False)
         else if 0xE0 \<le> b \<and> b \<le> 0xEF then
           (d\<lparr>lower_boundary := (if b = 0xE0 then 0xA0 else lower_boundary d),
              upper_boundary := (if b = 0xED then 0x9F else upper_boundary d),
              bytes_needed := 2, code_point := ucast (b AND 0xF)\<rparr>, Continue, False)
         else if 0xF0 \<le> b \<and> b \<le> 0xF4 then
           (d\<lparr>lower_boundary := (if b = 0xF0 then 0x90 else lower_boundary d),
              upper_boundary := (if b = 0xF4 then 0x8F else upper_boundary d),
              bytes_needed := 3, code_point := ucast (b AND 0x7)\<rparr>, Continue, False)
         else (d, Error, False))
      else if \<not> (lower_boundary d \<le> b \<and> b \<le> upper_boundary d) then
        (d\<lparr>code_point := 0, bytes_needed := 0, bytes_seen := 0,
           lower_boundary := 0x80, upper_boundary := 0xBF\<rparr>, Error, True)
      else
        (let d1 = d\<lparr>lower_boundary := 0x80, upper_boundary := 0xBF,
                     code_point := push_bit 6 (code_point d) OR ucast (b AND 0x3F),
                     bytes_seen := bytes_seen d + 1\<rparr>
         in if bytes_seen d1 \<noteq> bytes_needed d1 then (d1, Continue, False)
            else (d1\<lparr>code_point := 0, bytes_needed := 0, bytes_seen := 0\<rparr>,
                  Item (code_point d1), False)))"

text \<open>The handler at the end of the queue.\<close>

definition utf8_handler_end :: "utf8_decoder \<Rightarrow> utf8_decoder \<times> handler_result" where
  "utf8_handler_end d =
     (if bytes_needed d \<noteq> 0 then (d\<lparr>bytes_needed := 0\<rparr>, Error) else (d, Finished))"

text \<open>What a handler result adds to the output in replacement mode.\<close>

fun emitted :: "handler_result \<Rightarrow> code_point list" where
  "emitted (Item cp) = [cp]"
| "emitted Error = [0xFFFD]"
| "emitted Continue = []"
| "emitted Finished = []"

definition process_byte :: "utf8_decoder \<Rightarrow> byte \<Rightarrow> utf8_decoder \<times> code_point list" where
  "process_byte d b =
     (case utf8_handler d b of
        (d1, r1, restored) \<Rightarrow>
          if restored then
            (case utf8_handler d1 b of (d2, r2, _) \<Rightarrow> (d2, emitted r1 @ emitted r2))
          else (d1, emitted r1))"

fun process_queue :: "utf8_decoder \<Rightarrow> byte list \<Rightarrow> utf8_decoder \<times> code_point list" where
  "process_queue d [] = (d, [])"
| "process_queue d (b # bs) =
     (case process_byte d b of
        (d1, out1) \<Rightarrow> (case process_queue d1 bs of (d2, out2) \<Rightarrow> (d2, out1 @ out2)))"

definition process_end :: "utf8_decoder \<Rightarrow> utf8_decoder \<times> code_point list" where
  "process_end d = (case utf8_handler_end d of (d1, r) \<Rightarrow> (d1, emitted r))"

definition utf16_encode :: "code_point \<Rightarrow> jsstring" where
  "utf16_encode cp =
     (if cp < 0x10000 then [ucast cp]
      else [0xD800 + ucast (drop_bit 10 (cp - 0x10000)),
            0xDC00 + ucast ((cp - 0x10000) AND 0x3FF)])"

text \<open>
  Serialising the decoded code points: the first one is dropped when it is the byte
  order mark, and from then on the mark counts as seen.
\<close>

fun serialize_io_queue :: "bool \<Rightarrow> code_point list \<Rightarrow> bool \<times> jsstring" where
  "serialize_io_queue bom [] = (bom, [])"
| "serialize_io_queue bom (cp # cps) =
     (case serialize_io_queue True cps of
        (bom', s) \<Rightarrow> (bom', (if \<not> bom \<and> cp = 0xFEFF then [] else utf16_encode cp) @ s))"

record TextDecoder =
  decoder :: utf8_decoder
  BOM_seen :: bool
  do_not_flush :: bool

definition TextDecoder_new :: TextDecoder where
  "TextDecoder_new = \<lparr>decoder = utf8_decoder_new, BOM_seen = False, do_not_flush = False\<rparr>"

text \<open>
  \<^verbatim>\<open>decoder.decode(input, { stream })\<close>; an absent input is the empty byte sequence, an
  absent option is \<^verbatim>\<open>stream: false\<close>.
\<close>

definition decode :: "TextDecoder \<Rightarrow> byte list \<Rightarrow> bool \<Rightarrow> TextDecoder \<times> jsstring" where
  "decode td input stream =
     (let td1 = (if do_not_flush td then td else TextDecoder_new) in
      case process_queue (decoder td1) input of
        (d1, out1) \<Rightarrow>
          (case (if stream then (d1, []) else process_end d1) of
             (d2, out2) \<Rightarrow>
               (case serialize_io_queue (BOM_seen td1) (out1 @ out2) of
                  (bom, s) \<Rightarrow> (\<lparr>decoder = d2, BOM_seen = bom, do_not_flush = stream\<rparr>, s))))"

text \<open>The UTF-8 decoding of a complete byte sequence: one call on a fresh decoder.\<close>

definition utf8_decode :: "byte list \<Rightarrow> jsstring" where
  "utf8_decode bytes = snd (decode TextDecoder_new bytes False)"

section \<open>The page and the network\<close>

record request =
  request_url :: jsstring
  request_method :: jsstring
  request_headers :: "(jsstring \<times> jsstring) list"
  request_body :: jsstring

text \<open>What one \<^verbatim>\<open>reader.read()\<close> settles to.\<close>

datatype read_result = ReadChunk "byte list" | ReadDone | ReadRejects js_value

text \<open>
  A response: its status, what \<^verbatim>\<open>res.text()\<close> settles to (\<open>Inl\<close> a rejection), and
  its body: \<open>None\<close> for \<^verbatim>\<open>null\<close>, otherwise the results of the successive reads, which
  need not ever signal completion.
\<close>

record response =
  status :: nat
  text_result :: "js_value + jsstring"
  body :: "(nat \<Rightarrow> read_result) option"

definition ok :: "response \<Rightarrow> bool" where
  "ok res \<longleftrightarrow> 200 \<le> status res \<and> status res \<le> 299"

text \<open>
  The browser around the script: what \<^verbatim>\<open>fetch\<close> settles to for a request, and the
  height the layout gives the output area for a text.
\<close>

record browser =
  fetch :: "request \<Rightarrow> js_value + response"
  scrollHeight :: "jsstring \<Rightarrow> nat"

text \<open>The writes to the page and the requests, in the order they happen.\<close>

datatype effect =
    SetTextContent jsstring
  | SetScrollTop nat
  | SetDisabled bool
  | ClassListAdd jsstring
  | ClassListRemove jsstring
  | Fetch request

text \<open>
  The four elements the script looks up: the value of \<^verbatim>\<open>#prompt\<close>, the text and scroll
  position of \<^verbatim>\<open>#out\<close>, the disabled flag of \<^verbatim>\<open>#send\<close>, and the class list of
  \<^verbatim>\<open>#loading\<close> when the page has that element. \<open>effects\<close> records what was done.
\<close>

record page =
  prompt_value :: jsstring
  out_textContent :: jsstring
  out_scrollTop :: nat
  sendBtn_disabled :: bool
  overlay :: "jsstring list option"
  effects :: "effect list"

definition emit :: "effect \<Rightarrow> page \<Rightarrow> page" where
  "emit e p = p\<lparr>effects := effects p @ [e]\<rparr>"

definition set_textContent :: "jsstring \<Rightarrow> page \<Rightarrow> page" where
  "set_textContent s p = emit (SetTextContent s) (p\<lparr>out_textContent := s\<rparr>)"

text \<open>\<^verbatim>\<open>out.textContent += s\<close>\<close>

definition append_textContent :: "jsstring \<Rightarrow> page \<Rightarrow> page" where
  "append_textContent s p = set_textContent (out_textContent p @ s) p"

text \<open>\<^verbatim>\<open>out.scrollTop = out.scrollHeight\<close>\<close>

definition scroll_to_bottom :: "browser \<Rightarrow> page \<Rightarrow> page" where
  "scroll_to_bottom B p =
     (let h = scrollHeight B (out_textContent p)
      in emit (SetScrollTop h) (p\<lparr>out_scrollTop := h\<rparr>))"

definition set_disabled :: "bool \<Rightarrow> page \<Rightarrow> page" where
  "set_disabled v p = emit (SetDisabled v) (p\<lparr>sendBtn_disabled := v\<rparr>)"

text \<open>\<^verbatim>\<open>if (overlay) overlay.classList.add(t)\<close>\<close>

definition overlay_add :: "jsstring \<Rightarrow> page \<Rightarrow> page" where
  "overlay_add t p =
     (case overlay p of
        None \<Rightarrow> p
      | Some cl \<Rightarrow>
          emit (ClassListAdd t) (p\<lparr>overlay := Some (if t \<in> set cl then cl else cl @ [t])\<rparr>))"

text \<open>\<^verbatim>\<open>if (overlay) overlay.classList.remove(t)\<close>\<close>

definition overlay_remove :: "jsstring \<Rightarrow> page \<Rightarrow> page" where
  "overlay_remove t p =
     (case overlay p of
        None \<Rightarrow> p
      | Some cl \<Rightarrow> emit (ClassListRemove t) (p\<lparr>overlay := Some (filter (\<lambda>c. c \<noteq> t) cl)\<rparr>))"

section \<open>The script\<close>

text \<open>
  One invocation of \<^verbatim>\<open>send\<close> is followed from its call to its return, with no other
  handler running while it waits. Each \<^verbatim>\<open>await\<close> is the place where an answer of the
  browser enters: \<open>Inl\<close> is a rejection, which the script sees as a thrown value. The
  repository holds two copies of the script: \<^verbatim>\<open>static/app.js\<close>, and an earlier one
  without the loading overlay.
\<close>

subsection \<open>The read loop\<close>

text \<open>
  \<^verbatim>\<open>while (true) { const { value, done } = await reader.read(); if (done) break; ... }\<close>
  The loop leaves by \<^verbatim>\<open>break\<close> (\<open>Inr\<close>, with the decoder and the page) or by a
  rejected read (\<open>Inl\<close>, with the value thrown and the page as it is then). On a body
  that never signals completion it does not return: the result is \<open>None\<close>.
\<close>

partial_function (option) read_loop ::
  "browser \<Rightarrow> (nat \<Rightarrow> read_result) \<Rightarrow> nat \<Rightarrow> TextDecoder \<Rightarrow> page
     \<Rightarrow> (js_value \<times> page + TextDecoder \<times> page) option" where
  "read_loop B reader i td p =
     (case reader i of
        ReadRejects e \<Rightarrow> Some (Inl (e, p))
      | ReadDone \<Rightarrow> Some (Inr (td, p))
      | ReadChunk v \<Rightarrow>
          (case decode td v True of
             (td', s) \<Rightarrow>
               read_loop B reader (Suc i) td' (scroll_to_bottom B (append_textContent s p))))"

subsection \<open>\<^verbatim>\<open>send\<close> of \<^verbatim>\<open>static/app.js\<close>\<close>

definition chat_request :: "jsstring \<Rightarrow> request" where
  "chat_request prompt =
     \<lparr>request_url = lit ''/chat/stream'',
      request_method = lit ''POST'',
      request_headers = [(lit ''Content-Type'', lit ''application/json'')],
      request_body = JSON_stringify_prompt prompt\<rparr>"

text \<open>
  The body of the \<^verbatim>\<open>try\<close> block: \<open>Inl\<close> is a value thrown inside it, \<open>Inr\<close> a
  normal completion or a \<^verbatim>\<open>return\<close>.
\<close>

definition try_block :: "browser \<Rightarrow> jsstring \<Rightarrow> page \<Rightarrow> (js_value \<times> page + page) option" where
  "try_block B prompt p0 =
     (let p = emit (Fetch (chat_request prompt)) p0 in
      case fetch B (chat_request prompt) of
        Inl e \<Rightarrow> Some (Inl (e, p))
      | Inr res \<Rightarrow>
          if \<not> ok res then
            (case text_result res of
               Inl e \<Rightarrow> Some (Inl (e, p))
             | Inr err \<Rightarrow>
                 Some (Inr (set_textContent
                   (lit ''Error '' @ Number_toString (status res) @ lit '': '' @ err) p)))
          else
            (case body res of
               None \<Rightarrow>
                 Some (Inr (set_textContent
                   (lit ''Streaming not supported by the browser/connection.'') p))
             | Some reader \<Rightarrow>
                 (case read_loop B reader 0 TextDecoder_new p of
                    None \<Rightarrow> None
                  | Some (Inl thrown) \<Rightarrow> Some (Inl thrown)
                  | Some (Inr (td, p1)) \<Rightarrow>
                      Some (Inr (scroll_to_bottom B
                        (append_textContent (snd (decode td [] False)) p1))))))"

text \<open>\<^verbatim>\<open>catch (e) { out.textContent = 'Network error: ' + (e?.message || e); }\<close>\<close>

definition catch_block :: "js_value \<Rightarrow> page \<Rightarrow> page" where
  "catch_block e p =
     set_textContent (lit ''Network error: '' @ ToString (js_or (optional_message e) e)) p"

definition finally_block :: "page \<Rightarrow> page" where
  "finally_block p = overlay_remove (lit ''show'') (set_disabled False p)"

definition send :: "browser \<Rightarrow> page \<Rightarrow> page option" where
  "send B p0 =
     (let prompt = trim (prompt_value p0) in
      if prompt = [] then Some (set_textContent (lit ''Please enter a message.'') p0)
      else
        (let p1 = set_textContent [] p0;
             p2 = set_disabled True p1;
             p3 = overlay_add (lit ''show'') p2
         in case try_block B prompt p3 of
              None \<Rightarrow> None
            | Some (Inl (e, p)) \<Rightarrow> Some (finally_block (catch_block e p))
            | Some (Inr p) \<Rightarrow> Some (finally_block p)))"

subsection \<open>\<^verbatim>\<open>send\<close> of the copy without the loading overlay\<close>

text \<open>
  This copy never looks the overlay up, and assigns \<^verbatim>\<open>sendBtn.disabled = false\<close> before
  its two \<^verbatim>\<open>return\<close>s inside the \<^verbatim>\<open>try\<close> block as well as in \<^verbatim>\<open>finally\<close>.
\<close>

definition try_block_v0 :: "browser \<Rightarrow> jsstring \<Rightarrow> page \<Rightarrow> (js_value \<times> page + page) option" where
  "try_block_v0 B prompt p0 =
     (let p = emit (Fetch (chat_request prompt)) p0 in
      case fetch B (chat_request prompt) of
        Inl e \<Rightarrow> Some (Inl (e, p))
      | Inr res \<Rightarrow>
          if \<not> ok res then
            (case text_result res of
               Inl e \<Rightarrow> Some (Inl (e, p))
             | Inr err \<Rightarrow>
                 Some (Inr (set_disabled False (set_textContent
                   (lit ''Error '' @ Number_toString (status res) @ lit '': '' @ err) p))))
          else
            (case body res of
               None \<Rightarrow>
                 Some (Inr (set_disabled False (set_textContent
                   (lit ''Streaming not supported by the browser/connection.'') p)))
             | Some reader \<Rightarrow>
                 (case read_loop B reader 0 TextDecoder_new p of
                    None \<Rightarrow> None
                  | Some (Inl thrown) \<Rightarrow> Some (Inl thrown)
                  | Some (Inr (td, p1)) \<Rightarrow>
                      Some (Inr (scroll_to_bottom B
                        (append_textContent (snd (decode td [] False)) p1))))))"

definition finally_block_v0 :: "page \<Rightarrow> page" where
  "finally_block_v0 p = set_disabled False p"

definition send_v0 :: "browser \<Rightarrow> page \<Rightarrow> page option" where
  "send_v0 B p0 =
     (let prompt = trim (prompt_value p0) in
      if prompt = [] then Some (set_textContent (lit ''Please enter a message.'') p0)
      else
        (let p1 = set_textContent [] p0;
             p2 = set_disabled True p1
         in case try_block_v0 B prompt p2 of
              None \<Rightarrow> None
            | Some (Inl (e, p)) \<Rightarrow> Some (finally_block_v0 (catch_block e p))
            | Some (Inr p) \<Rightarrow> Some (finally_block_v0 p)))"

subsection \<open>The listeners\<close>

record keyboard_event =
  key :: jsstring
  ctrlKey :: bool
  metaKey :: bool

text \<open>
  \<^verbatim>\<open>(e) => { if (e.key === 'Enter' && (e.ctrlKey || e.metaKey)) send(); }\<close>
  When \<^verbatim>\<open>send\<close> is not called, the page is left as it is.
\<close>

definition keydown_listener :: "browser \<Rightarrow> keyboard_event \<Rightarrow> page \<Rightarrow> page option" where
  "keydown_listener B e p =
     (if key e = lit ''Enter'' \<and> (ctrlKey e \<or> metaKey e) then send B p else Some p)"

definition click_listener :: "browser \<Rightarrow> page \<Rightarrow> page option" where
  "click_listener B p = send B p"

declare read_loop.simps [code]

section \<open>Observing one invocation\<close>

text \<open>What an invocation added to the record of effects.\<close>

definition new_effects :: "page \<Rightarrow> page \<Rightarrow> effect list" where
  "new_effects p p' = drop (length (effects p)) (effects p')"

text \<open>The network requests among some effects, and the values written to the output area.\<close>

fun requests :: "effect list \<Rightarrow> request list" where
  "requests [] = []"
| "requests (Fetch r # es) = r # requests es"
| "requests (e # es) = requests es"

fun text_writes :: "effect list \<Rightarrow> jsstring list" where
  "text_writes [] = []"
| "text_writes (SetTextContent s # es) = s # text_writes es"
| "text_writes (e # es) = text_writes es"

text \<open>
  Starting from the content \<open>cur\<close>, every value written extends the content it
  replaces: the output area is only appended to.
\<close>

fun appends_from :: "jsstring \<Rightarrow> jsstring list \<Rightarrow> bool" where
  "appends_from cur [] = True"
| "appends_from cur (w # ws) = (prefix cur w \<and> appends_from w ws)"

text \<open>Effects that are writes to the text or the scroll position of the output area.\<close>

fun output_write :: "effect \<Rightarrow> bool" where
  "output_write (SetTextContent s) = True"
| "output_write (SetScrollTop n) = True"
| "output_write e = False"

text \<open>The body delivers the chunks \<open>cs\<close>, in this order, from its \<open>i\<close>-th read on.\<close>

fun reads_from :: "(nat \<Rightarrow> read_result) \<Rightarrow> nat \<Rightarrow> byte list list \<Rightarrow> bool" where
  "reads_from reader i [] = True"
| "reads_from reader i (c # cs) = (reader i = ReadChunk c \<and> reads_from reader (Suc i) cs)"

text \<open>The decoder and the page after the loop body has run on each chunk of \<open>cs\<close>.\<close>

fun feed :: "browser \<Rightarrow> byte list list \<Rightarrow> TextDecoder \<Rightarrow> page \<Rightarrow> TextDecoder \<times> page" where
  "feed B [] td p = (td, p)"
| "feed B (c # cs) td p =
     (case decode td c True of
        (td', s) \<Rightarrow> feed B cs td' (scroll_to_bottom B (append_textContent s p)))"

text \<open>
  The ways one exchange with the server can go, and when the browser \<open>B\<close> answers the
  request \<open>req\<close> in that way.
\<close>

datatype outcome =
    FetchRejected js_value
  | TextRejected js_value
  | ErrorStatus nat jsstring
  | NoBody
  | Streamed "byte list list"
  | ReadRejected "byte list list" js_value

fun exchange :: "browser \<Rightarrow> request \<Rightarrow> outcome \<Rightarrow> bool" where
  "exchange B req (FetchRejected e) = (fetch B req = Inl e)"
| "exchange B req (TextRejected e) =
     (case fetch B req of
        Inl _ \<Rightarrow> False
      | Inr res \<Rightarrow> \<not> ok res \<and> text_result res = Inl e)"
| "exchange B req (ErrorStatus S b) =
     (case fetch B req of
        Inl _ \<Rightarrow> False
      | Inr res \<Rightarrow> \<not> ok res \<and> status res = S \<and> text_result res = Inr b)"
| "exchange B req NoBody =
     (case fetch B req of
        Inl _ \<Rightarrow> False
      | Inr res \<Rightarrow> ok res \<and> body res = None)"
| "exchange B req (Streamed cs) =
     (case fetch B req of
        Inl _ \<Rightarrow> False
      | Inr res \<Rightarrow>
          ok res \<and>
          (case body res of
             None \<Rightarrow> False
           | Some reader \<Rightarrow> reads_from reader 0 cs \<and> reader (length cs) = ReadDone))"
| "exchange B req (ReadRejected cs e) =
     (case fetch B req of
        Inl _ \<Rightarrow> False
      | Inr res \<Rightarrow>
          ok res \<and>
          (case body res of
             None \<Rightarrow> False
           | Some reader \<Rightarrow> reads_from reader 0 cs \<and> reader (length cs) = ReadRejects e))"

text \<open>The value a \<^verbatim>\<open>catch\<close> clause receives in an outcome, if any.\<close>

fun thrown :: "outcome \<Rightarrow> js_value option" where
  "thrown (FetchRejected e) = Some e"
| "thrown (TextRejected e) = Some e"
| "thrown (ReadRejected cs e) = Some e"
| "thrown _ = None"

text \<open>The outcomes in which the script leaves the \<^verbatim>\<open>try\<close> block by a \<^verbatim>\<open>return\<close>.\<close>

fun early_return :: "outcome \<Rightarrow> bool" where
  "early_return (ErrorStatus S b) = True"
| "early_return NoBody = True"
| "early_return _ = False"

text \<open>
  The page that the \<^verbatim>\<open>try\<close> and \<^verbatim>\<open>catch\<close> blocks leave in each outcome, from the
  page \<open>p\<close> on which the request was issued: for \<^verbatim>\<open>static/app.js\<close>, and for the
  variant without overlay, which re-enables the button before two of its returns.
\<close>

fun settle :: "browser \<Rightarrow> outcome \<Rightarrow> page \<Rightarrow> page" where
  "settle B (FetchRejected e) p = catch_block e p"
| "settle B (TextRejected e) p = catch_block e p"
| "settle B (ErrorStatus S b) p =
     set_textContent (lit ''Error '' @ Number_toString S @ lit '': '' @ b) p"
| "settle B NoBody p =
     set_textContent (lit ''Streaming not supported by the browser/connection.'') p"
| "settle B (Streamed cs) p =
     (case feed B cs TextDecoder_new p of
        (td, p1) \<Rightarrow> scroll_to_bottom B (append_textContent (snd (decode td [] False)) p1))"
| "settle B (ReadRejected cs e) p = catch_block e (snd (feed B cs TextDecoder_new p))"

fun settle_v0 :: "browser \<Rightarrow> outcome \<Rightarrow> page \<Rightarrow> page" where
  "settle_v0 B (ErrorStatus S b) p = set_disabled False (settle B (ErrorStatus S b) p)"
| "settle_v0 B NoBody p = set_disabled False (settle B NoBody p)"
| "settle_v0 B out p = settle B out p"

text \<open>The page on which \<^verbatim>\<open>send\<close> issues its request, and the one on which the variant does.\<close>

definition started :: "page \<Rightarrow> page" where
  "started p =
     emit (Fetch (chat_request (trim (prompt_value p))))
       (overlay_add (lit ''show'') (set_disabled True (set_textContent [] p)))"

definition started_v0 :: "page \<Rightarrow> page" where
  "started_v0 p =
     emit (Fetch (chat_request (trim (prompt_value p))))
       (set_disabled True (set_textContent [] p))"

subsection \<open>Concrete pages and browsers\<close>

definition example_page :: "jsstring \<Rightarrow> page" where
  "example_page v =
     \<lparr>prompt_value = v, out_textContent = lit ''earlier answer'', out_scrollTop = 0,
      sendBtn_disabled = False, overlay = Some [lit ''overlay''], effects = []\<rparr>"

text \<open>A page on which a request is in flight, with only blanks in the prompt field.\<close>

definition busy_page :: page where
  "busy_page =
     \<lparr>prompt_value = lit ''   '', out_textContent = lit ''partial ans'', out_scrollTop = 0,
      sendBtn_disabled = True, overlay = Some [lit ''overlay'', lit ''show''], effects = []\<rparr>"

definition answering :: "response \<Rightarrow> browser" where
  "answering res = \<lparr>fetch = (\<lambda>req. Inr res), scrollHeight = length\<rparr>"

definition unreachable :: "js_value \<Rightarrow> browser" where
  "unreachable e = \<lparr>fetch = (\<lambda>req. Inl e), scrollHeight = length\<rparr>"

text \<open>A body that delivers the chunks \<open>cs\<close> and then settles every read to \<open>fin\<close>.\<close>

definition chunked :: "byte list list \<Rightarrow> read_result \<Rightarrow> nat \<Rightarrow> read_result" where
  "chunked cs fin i = (if i < length cs then ReadChunk (cs ! i) else fin)"

text \<open>
  The bytes of ``h'', of a two-byte and of a four-byte character, cut inside both
  multi-byte characters and with an empty chunk in between.
\<close>

definition smile_chunks :: "byte list list" where
  "smile_chunks = [[0x68, 0xC3], [0xA9, 0xF0, 0x9F], [], [0x98, 0x80]]"

definition smile_browser :: browser where
  "smile_browser =
     answering \<lparr>status = 200, text_result = Inr [], body = Some (chunked smile_chunks ReadDone)\<rparr>"

definition bad_request_browser :: browser where
  "bad_request_browser =
     answering \<lparr>status = 400, text_result = Inr (lit ''bad request''), body = None\<rparr>"

definition bodyless_browser :: browser where
  "bodyless_browser = answering \<lparr>status = 200, text_result = Inr [], body = None\<rparr>"

definition timeout_error :: js_value where
  "timeout_error = ErrorObject (lit ''TypeError'') (lit ''timeout'')"

text \<open>A body whose second read is rejected, after one chunk has been delivered.\<close>

definition interrupted_browser :: browser where
  "interrupted_browser =
     answering \<lparr>status = 200, text_result = Inr [],
       body = Some (chunked [[0x48, 0x69]] (ReadRejects timeout_error))\<rparr>"

section \<open>Supporting lemmas\<close>


subsection \<open>The primitives, field by field\<close>

lemma emit_simps [simp]:
  "prompt_value (emit e p) = prompt_value p"
  "out_textContent (emit e p) = out_textContent p"
  "out_scrollTop (emit e p) = out_scrollTop p"
  "sendBtn_disabled (emit e p) = sendBtn_disabled p"
  "overlay (emit e p) = overlay p"
  "effects (emit e p) = effects p @ [e]"
  by (simp_all add: emit_def)

lemma set_textContent_simps [simp]:
  "prompt_value (set_textContent s p) = prompt_value p"
  "out_textContent (set_textContent s p) = s"
  "sendBtn_disabled (set_textContent s p) = sendBtn_disabled p"
  "overlay (set_textContent s p) = overlay p"
  "effects (set_textContent s p) = effects p @ [SetTextContent s]"
  by (simp_all add: set_textContent_def)

lemma append_textContent_simps [simp]:
  "prompt_value (append_textContent s p) = prompt_value p"
  "out_textContent (append_textContent s p) = out_textContent p @ s"
  "sendBtn_disabled (append_textContent s p) = sendBtn_disabled p"
  "overlay (append_textContent s p) = overlay p"
  "effects (append_textContent s p) = effects p @ [SetTextContent (out_textContent p @ s)]"
  by (simp_all add: append_textContent_def)

lemma scroll_to_bottom_simps [simp]:
  "prompt_value (scroll_to_bottom B p) = prompt_value p"
  "out_textContent (scroll_to_bottom B p) = out_textContent p"
  "sendBtn_disabled (scroll_to_bottom B p) = sendBtn_disabled p"
  "overlay (scroll_to_bottom B p) = overlay p"
  "effects (scroll_to_bottom B p) = effects p @ [SetScrollTop (scrollHeight B (out_textContent p))]"
  by (simp_all add: scroll_to_bottom_def Let_def)

lemma set_disabled_simps [simp]:
  "prompt_value (set_disabled v p) = prompt_value p"
  "out_textContent (set_disabled v p) = out_textContent p"
  "sendBtn_disabled (set_disabled v p) = v"
  "overlay (set_disabled v p) = overlay p"
  "effects (set_disabled v p) = effects p @ [SetDisabled v]"
  by (simp_all add: set_disabled_def)

lemma overlay_add_simps [simp]:
  "prompt_value (overlay_add t p) = prompt_value p"
  "out_textContent (overlay_add t p) = out_textContent p"
  "sendBtn_disabled (overlay_add t p) = sendBtn_disabled p"
  "overlay (overlay_add t p) = map_option (\<lambda>cl. if t \<in> set cl then cl else cl @ [t]) (overlay p)"
  "effects (overlay_add t p) = effects p @ (case overlay p of None \<Rightarrow> [] | Some cl \<Rightarrow> [ClassListAdd t])"
  by (simp_all add: overlay_add_def split: option.splits)

lemma overlay_remove_simps [simp]:
  "prompt_value (overlay_remove t p) = prompt_value p"
  "out_textContent (overlay_remove t p) = out_textContent p"
  "sendBtn_disabled (overlay_remove t p) = sendBtn_disabled p"
  "overlay (overlay_remove t p) = map_option (filter (\<lambda>c. c \<noteq> t)) (overlay p)"
  "effects (overlay_remove t p) = effects p @ (case overlay p of None \<Rightarrow> [] | Some cl \<Rightarrow> [ClassListRemove t])"
  by (simp_all add: overlay_remove_def split: option.splits)

lemma catch_block_simps [simp]:
  "prompt_value (catch_block e p) = prompt_value p"
  "out_textContent (catch_block e p) = lit ''Network error: '' @ ToString (js_or (optional_message e) e)"
  "sendBtn_disabled (catch_block e p) = sendBtn_disabled p"
  "overlay (catch_block e p) = overlay p"
  "effects (catch_block e p) =
     effects p @ [SetTextContent (lit ''Network error: '' @ ToString (js_or (optional_message e) e))]"
  by (simp_all add: catch_block_def)

lemma finally_block_simps [simp]:
  "prompt_value (finally_block p) = prompt_value p"
  "out_textContent (finally_block p) = out_textContent p"
  "sendBtn_disabled (finally_block p) = False"
  "overlay (finally_block p) = map_option (filter (\<lambda>c. c \<noteq> lit ''show'')) (overlay p)"
  "effects (finally_block p) =
     effects p @ SetDisabled False # (case overlay p of None \<Rightarrow> [] | Some cl \<Rightarrow> [ClassListRemove (lit ''show'')])"
  by (simp_all add: finally_block_def)

lemma finally_block_v0_simps [simp]:
  "prompt_value (finally_block_v0 p) = prompt_value p"
  "out_textContent (finally_block_v0 p) = out_textContent p"
  "sendBtn_disabled (finally_block_v0 p) = False"
  "overlay (finally_block_v0 p) = overlay p"
  "effects (finally_block_v0 p) = effects p @ [SetDisabled False]"
  by (simp_all add: finally_block_v0_def)

subsection \<open>Observations\<close>

lemma new_effects_append [simp]: "effects p' = effects p @ es \<Longrightarrow> new_effects p p' = es"
  by (simp add: new_effects_def)

lemma requests_append [simp]: "requests (xs @ ys) = requests xs @ requests ys"
  by (induction xs rule: requests.induct) simp_all

lemma text_writes_append [simp]: "text_writes (xs @ ys) = text_writes xs @ text_writes ys"
  by (induction xs rule: text_writes.induct) simp_all

lemma appends_from_append:
  "appends_from cur (xs @ ys) \<longleftrightarrow> appends_from cur xs \<and> appends_from (last (cur # xs)) ys"
  by (induction xs arbitrary: cur) auto

lemma requests_output_writes: "list_all output_write es \<Longrightarrow> requests es = []"
  by (induction es rule: requests.induct) simp_all

lemma count_output_writes:
  "list_all output_write es \<Longrightarrow> \<not> output_write e \<Longrightarrow> count_list es e = 0"
  by (induction es) auto

subsection \<open>The decoder across chunk boundaries\<close>

lemma process_queue_append:
  "process_queue d (a @ b) =
     (case process_queue d a of
        (d1, out1) \<Rightarrow> (case process_queue d1 b of (d2, out2) \<Rightarrow> (d2, out1 @ out2)))"
  by (induction a arbitrary: d) (auto split: prod.splits)

lemma serialize_io_queue_append:
  "serialize_io_queue bom (x @ y) =
     (case serialize_io_queue bom x of
        (bom1, s1) \<Rightarrow> (case serialize_io_queue bom1 y of (bom2, s2) \<Rightarrow> (bom2, s1 @ s2)))"
  by (induction x arbitrary: bom) (auto split: prod.splits)

lemma decode_append:
  "decode td (a @ b) st =
     (case decode td a True of
        (td1, s1) \<Rightarrow> (case decode td1 b st of (td2, s2) \<Rightarrow> (td2, s1 @ s2)))"
  by (auto simp add: decode_def Let_def process_queue_append serialize_io_queue_append
      split: prod.splits)

subsection \<open>The read loop\<close>

lemma read_loop_feed:
  "reads_from reader i cs \<Longrightarrow>
   read_loop B reader i td p =
     (case feed B cs td p of (td', p') \<Rightarrow> read_loop B reader (i + length cs) td' p')"
proof (induction cs arbitrary: i td p)
  case Nil
  then show ?case by simp
next
  case (Cons c cs)
  then show ?case
    by (subst read_loop.simps) (simp split: prod.splits)
qed

lemma read_loop_done:
  "reads_from reader i cs \<Longrightarrow> reader (i + length cs) = ReadDone \<Longrightarrow>
   read_loop B reader i td p = Some (Inr (feed B cs td p))"
  by (simp add: read_loop_feed split: prod.splits) (simp add: read_loop.simps)

lemma read_loop_rejects:
  "reads_from reader i cs \<Longrightarrow> reader (i + length cs) = ReadRejects e \<Longrightarrow>
   read_loop B reader i td p = Some (Inl (e, snd (feed B cs td p)))"
  by (simp add: read_loop_feed split: prod.splits) (simp add: read_loop.simps)

lemma read_loop_Some:
  "read_loop B reader i td p = Some res \<Longrightarrow>
   \<exists>cs. reads_from reader i cs \<and>
     ((reader (i + length cs) = ReadDone \<and> res = Inr (feed B cs td p)) \<or>
      (\<exists>e. reader (i + length cs) = ReadRejects e \<and> res = Inl (e, snd (feed B cs td p))))"
proof (induction rule: read_loop.raw_induct[rotated 1, consumes 1])
  case (1 loop B reader i td p res)
  show ?case
  proof (cases "reader i")
    case (ReadChunk v)
    obtain td' s where d: "decode td v True = (td', s)" by (cases "decode td v True")
    with 1(2) ReadChunk have "loop B reader (Suc i) td' (scroll_to_bottom B (append_textContent s p)) = Some res"
      by simp
    then obtain cs where
      "reads_from reader (Suc i) cs" and
      "(reader (Suc i + length cs) = ReadDone \<and>
          res = Inr (feed B cs td' (scroll_to_bottom B (append_textContent s p)))) \<or>
       (\<exists>e. reader (Suc i + length cs) = ReadRejects e \<and>
          res = Inl (e, snd (feed B cs td' (scroll_to_bottom B (append_textContent s p)))))"
      using 1(1) by blast
    with ReadChunk d show ?thesis
      by (intro exI[of _ "v # cs"]) simp
  next
    case ReadDone
    with 1(2) show ?thesis by (intro exI[of _ "[]"]) simp
  next
    case (ReadRejects e)
    with 1(2) show ?thesis by (intro exI[of _ "[]"]) auto
  qed
qed

subsection \<open>What the loop body does to the page\<close>

lemma feed_frame:
  "prompt_value (snd (feed B cs td p)) = prompt_value p"
  "sendBtn_disabled (snd (feed B cs td p)) = sendBtn_disabled p"
  "overlay (snd (feed B cs td p)) = overlay p"
  by (induction cs arbitrary: td p) (simp_all split: prod.splits)

lemma feed_effects:
  "\<exists>es. effects (snd (feed B cs td p)) = effects p @ es \<and> list_all output_write es \<and>
        appends_from (out_textContent p) (text_writes es) \<and>
        last (out_textContent p # text_writes es) = out_textContent (snd (feed B cs td p))"
proof (induction cs arbitrary: td p)
  case Nil
  show ?case by simp
next
  case (Cons c cs)
  obtain td' s where d: "decode td c True = (td', s)" by (cases "decode td c True")
  let ?q = "scroll_to_bottom B (append_textContent s p)"
  from Cons[of td' ?q] obtain es where
    es: "effects (snd (feed B cs td' ?q)) = effects ?q @ es" "list_all output_write es"
      "appends_from (out_textContent ?q) (text_writes es)"
      "last (out_textContent ?q # text_writes es) = out_textContent (snd (feed B cs td' ?q))"
    by blast
  let ?es = "SetTextContent (out_textContent p @ s) # SetScrollTop (scrollHeight B (out_textContent p @ s)) # es"
  from es d show ?case
    by (intro exI[of _ ?es]) simp
qed

lemma feed_text:
  "out_textContent (snd (feed B cs td p)) @ snd (decode (fst (feed B cs td p)) [] False) =
   out_textContent p @ snd (decode td (concat cs) False)"
proof (induction cs arbitrary: td p)
  case Nil
  show ?case by simp
next
  case (Cons c cs)
  show ?case
    by (simp add: decode_append Cons split: prod.splits)
qed


subsection \<open>Each outcome, and every completed invocation\<close>

lemma try_block_exchange:
  "exchange B (chat_request P) out \<Longrightarrow>
   try_block B P p =
     Some (case thrown out of
             None \<Rightarrow> Inr (settle B out (emit (Fetch (chat_request P)) p))
           | Some e \<Rightarrow> Inl (e, (case out of ReadRejected cs _ \<Rightarrow> snd (feed B cs TextDecoder_new (emit (Fetch (chat_request P)) p)) | _ \<Rightarrow> emit (Fetch (chat_request P)) p)))"
  by (cases out)
     (auto simp: try_block_def Let_def read_loop_done read_loop_rejects
           split: sum.splits option.splits prod.splits)

lemma send_exchange:
  assumes "trim (prompt_value p) \<noteq> []"
    and "exchange B (chat_request (trim (prompt_value p))) out"
  shows "send B p = Some (finally_block (settle B out (started p)))"
  using assms(1) try_block_exchange[OF assms(2)]
  by (cases out) (simp_all add: send_def Let_def started_def)


lemma try_block_Some:
  assumes "try_block B P p = Some r"
  shows "\<exists>out. exchange B (chat_request P) out"
proof (cases "fetch B (chat_request P)")
  case (Inl e)
  then have "exchange B (chat_request P) (FetchRejected e)" by simp
  then show ?thesis ..
next
  case (Inr res)
  show ?thesis
  proof (cases "ok res")
    case False
    show ?thesis
    proof (cases "text_result res")
      case (Inl e)
      with Inr False have "exchange B (chat_request P) (TextRejected e)" by simp
      then show ?thesis ..
    next
      case (Inr b)
      with \<open>fetch B (chat_request P) = Inr res\<close> False
      have "exchange B (chat_request P) (ErrorStatus (status res) b)" by simp
      then show ?thesis ..
    qed
  next
    case True
    show ?thesis
    proof (cases "body res")
      case None
      with Inr True have "exchange B (chat_request P) NoBody" by simp
      then show ?thesis ..
    next
      case (Some reader)
      with assms Inr True obtain res' where
        "read_loop B reader 0 TextDecoder_new (emit (Fetch (chat_request P)) p) = Some res'"
        by (auto simp: try_block_def Let_def split: option.splits)
      from read_loop_Some[OF this] obtain cs where
        "reads_from reader 0 cs" and
        "reader (length cs) = ReadDone \<or> (\<exists>e. reader (length cs) = ReadRejects e)"
        by auto
      with Inr True Some
      have "exchange B (chat_request P) (Streamed cs) \<or>
            (\<exists>e. exchange B (chat_request P) (ReadRejected cs e))"
        by auto
      then show ?thesis by blast
    qed
  qed
qed

lemma send_Some:
  assumes "trim (prompt_value p) \<noteq> []" and "send B p = Some p'"
  shows "\<exists>out. exchange B (chat_request (trim (prompt_value p))) out \<and>
           p' = finally_block (settle B out (started p))"
proof -
  from assms obtain r where
    "try_block B (trim (prompt_value p))
       (overlay_add (lit ''show'') (set_disabled True (set_textContent [] p))) = Some r"
    by (auto simp: send_def Let_def split: option.splits)
  from try_block_Some[OF this] obtain out where
    out: "exchange B (chat_request (trim (prompt_value p))) out" ..
  from send_exchange[OF assms(1) out] assms(2) have "p' = finally_block (settle B out (started p))"
    by simp
  with out show ?thesis by blast
qed

lemma send_empty:
  "trim (prompt_value p) = [] \<Longrightarrow>
   send B p = Some (set_textContent (lit ''Please enter a message.'') p)"
  by (simp add: send_def)

subsection \<open>The variant\<close>

lemma try_block_v0_exchange:
  "exchange B (chat_request P) out \<Longrightarrow>
   try_block_v0 B P p =
     Some (case thrown out of
             None \<Rightarrow> Inr (settle_v0 B out (emit (Fetch (chat_request P)) p))
           | Some e \<Rightarrow> Inl (e, (case out of ReadRejected cs _ \<Rightarrow> snd (feed B cs TextDecoder_new (emit (Fetch (chat_request P)) p)) | _ \<Rightarrow> emit (Fetch (chat_request P)) p)))"
  by (cases out)
     (auto simp: try_block_v0_def Let_def read_loop_done read_loop_rejects
           split: sum.splits option.splits prod.splits)

lemma send_v0_exchange:
  assumes "trim (prompt_value p) \<noteq> []"
    and "exchange B (chat_request (trim (prompt_value p))) out"
  shows "send_v0 B p = Some (finally_block_v0 (settle_v0 B out (started_v0 p)))"
  using assms(1) try_block_v0_exchange[OF assms(2)]
  by (cases out) (simp_all add: send_v0_def Let_def started_v0_def)

lemma try_block_v0_None: "try_block_v0 B P p = None \<longleftrightarrow> try_block B P p = None"
  by (auto simp: try_block_v0_def try_block_def Let_def split: sum.splits option.splits prod.splits)

lemma send_v0_Some:
  assumes "trim (prompt_value p) \<noteq> []" and "send_v0 B p = Some p'"
  shows "\<exists>out. exchange B (chat_request (trim (prompt_value p))) out \<and>
           p' = finally_block_v0 (settle_v0 B out (started_v0 p))"
proof -
  from assms have
    "try_block_v0 B (trim (prompt_value p)) (set_disabled True (set_textContent [] p)) \<noteq> None"
    by (auto simp: send_v0_def Let_def split: option.splits)
  then obtain r where
    "try_block B (trim (prompt_value p)) (set_disabled True (set_textContent [] p)) = Some r"
    by (auto simp: try_block_v0_None)
  from try_block_Some[OF this] obtain out where
    out: "exchange B (chat_request (trim (prompt_value p))) out" ..
  from send_v0_exchange[OF assms(1) out] assms(2)
  have "p' = finally_block_v0 (settle_v0 B out (started_v0 p))"
    by simp
  with out show ?thesis by blast
qed

lemma send_v0_empty:
  "trim (prompt_value p) = [] \<Longrightarrow>
   send_v0 B p = Some (set_textContent (lit ''Please enter a message.'') p)"
  by (simp add: send_v0_def)




subsection \<open>The page at the request and after each outcome\<close>

lemma started_simps [simp]:
  "prompt_value (started p) = prompt_value p"
  "out_textContent (started p) = []"
  "overlay (started p) =
     map_option (\<lambda>cl. if lit ''show'' \<in> set cl then cl else cl @ [lit ''show'']) (overlay p)"
  by (simp_all add: started_def)

lemma effects_started [simp]:
  "effects (started p) =
     effects p @ SetTextContent [] # SetDisabled True #
       (case overlay p of None \<Rightarrow> [] | Some cl \<Rightarrow> [ClassListAdd (lit ''show'')]) @
       [Fetch (chat_request (trim (prompt_value p)))]"
  by (cases "overlay p") (simp_all add: started_def)

lemma started_v0_simps [simp]:
  "prompt_value (started_v0 p) = prompt_value p"
  "out_textContent (started_v0 p) = []"
  "overlay (started_v0 p) = overlay p"
  "effects (started_v0 p) =
     effects p @ [SetTextContent [], SetDisabled True, Fetch (chat_request (trim (prompt_value p)))]"
  by (simp_all add: started_v0_def)

lemma feed_frame_pair:
  "feed B cs td p = (td', p') \<Longrightarrow>
   prompt_value p' = prompt_value p \<and> sendBtn_disabled p' = sendBtn_disabled p \<and>
   overlay p' = overlay p"
  using feed_frame[of B cs td p] by simp

lemma prompt_value_settle [simp]: "prompt_value (settle B out p) = prompt_value p"
  by (cases out) (auto simp: feed_frame split: prod.splits dest: feed_frame_pair)

lemma overlay_settle [simp]: "overlay (settle B out p) = overlay p"
  by (cases out) (auto simp: feed_frame split: prod.splits dest: feed_frame_pair)

lemma prompt_value_settle_v0 [simp]: "prompt_value (settle_v0 B out p) = prompt_value p"
  by (cases out) (auto simp: feed_frame split: prod.splits dest: feed_frame_pair)

lemma overlay_settle_v0 [simp]: "overlay (settle_v0 B out p) = overlay p"
  by (cases out) (auto simp: feed_frame split: prod.splits dest: feed_frame_pair)

lemma settle_streamed_text:
  "out_textContent (settle B (Streamed cs) p) =
   out_textContent p @ snd (decode TextDecoder_new (concat cs) False)"
  using feed_text[of B cs TextDecoder_new p] by (cases "feed B cs TextDecoder_new p") simp

lemma settle_effects:
  "out_textContent p = [] \<Longrightarrow>
   \<exists>es. effects (settle B out p) = effects p @ es \<and> list_all output_write es \<and> es \<noteq> [] \<and>
     (case thrown out of
        None \<Rightarrow> appends_from (out_textContent p) (text_writes es)
      | Some e \<Rightarrow>
          text_writes es \<noteq> [] \<and>
          appends_from (out_textContent p) (butlast (text_writes es)) \<and>
          last (text_writes es) =
            lit ''Network error: '' @ ToString (js_or (optional_message e) e))"
proof (cases out)
  assume empty: "out_textContent p = []"
  case (Streamed cs)
  obtain td p1 where f: "feed B cs TextDecoder_new p = (td, p1)"
    by (cases "feed B cs TextDecoder_new p")
  from feed_effects[of B cs TextDecoder_new p] f obtain es where
    es: "effects p1 = effects p @ es" "list_all output_write es"
      "appends_from (out_textContent p) (text_writes es)"
      "last (out_textContent p # text_writes es) = out_textContent p1"
    by auto
  let ?w = "out_textContent p1 @ snd (decode td [] False)"
  from es f Streamed show ?thesis
    by (intro exI[of _ "es @ [SetTextContent ?w, SetScrollTop (scrollHeight B ?w)]"])
       (simp add: appends_from_append)
next
  case (ReadRejected cs e)
  from feed_effects[of B cs TextDecoder_new p] obtain es where
    es: "effects (snd (feed B cs TextDecoder_new p)) = effects p @ es" "list_all output_write es"
      "appends_from (out_textContent p) (text_writes es)"
    by auto
  let ?w = "lit ''Network error: '' @ ToString (js_or (optional_message e) e)"
  from es ReadRejected show ?thesis
    by (intro exI[of _ "es @ [SetTextContent ?w]"]) simp
qed auto

lemma settle_v0_effects:
  "\<exists>es. effects (settle_v0 B out p) = effects p @ es"
proof (cases out)
  case (Streamed cs)
  obtain td p1 where f: "feed B cs TextDecoder_new p = (td, p1)"
    by (cases "feed B cs TextDecoder_new p")
  with feed_effects[of B cs TextDecoder_new p] Streamed show ?thesis by auto
next
  case (ReadRejected cs e)
  with feed_effects[of B cs TextDecoder_new p] show ?thesis by auto
qed auto

lemma settle_v0_streamed [simp]: "settle_v0 B (Streamed cs) p = settle B (Streamed cs) p"
  by simp


lemma completed_effects:
  "\<exists>es. effects (finally_block (settle B out (started p))) =
          effects p @ SetTextContent [] # SetDisabled True #
            (case overlay p of None \<Rightarrow> [] | Some cl \<Rightarrow> [ClassListAdd (lit ''show'')]) @
            Fetch (chat_request (trim (prompt_value p))) # es @ SetDisabled False #
            (case overlay p of None \<Rightarrow> [] | Some cl \<Rightarrow> [ClassListRemove (lit ''show'')]) \<and>
        list_all output_write es \<and>
        (case thrown out of
           None \<Rightarrow> appends_from [] (text_writes es)
         | Some e \<Rightarrow>
             text_writes es \<noteq> [] \<and> appends_from [] (butlast (text_writes es)) \<and>
             last (text_writes es) =
               lit ''Network error: '' @ ToString (js_or (optional_message e) e))"
proof -
  define q where "q = started p"
  have q0: "out_textContent q = []" by (simp add: q_def)
  from settle_effects[OF q0, of B out] obtain es where
    es: "effects (settle B out q) = effects q @ es" "list_all output_write es" and
    tw: "case thrown out of
           None \<Rightarrow> appends_from (out_textContent q) (text_writes es)
         | Some e \<Rightarrow>
             text_writes es \<noteq> [] \<and>
             appends_from (out_textContent q) (butlast (text_writes es)) \<and>
             last (text_writes es) =
               lit ''Network error: '' @ ToString (js_or (optional_message e) e)"
    by blast
  from tw have tw': "case thrown out of
           None \<Rightarrow> appends_from [] (text_writes es)
         | Some e \<Rightarrow>
             text_writes es \<noteq> [] \<and> appends_from [] (butlast (text_writes es)) \<and>
             last (text_writes es) =
               lit ''Network error: '' @ ToString (js_or (optional_message e) e)"
    by (simp only: q0)
  have "effects (finally_block (settle B out q)) =
          effects p @ SetTextContent [] # SetDisabled True #
            (case overlay p of None \<Rightarrow> [] | Some cl \<Rightarrow> [ClassListAdd (lit ''show'')]) @
            Fetch (chat_request (trim (prompt_value p))) # es @ SetDisabled False #
            (case overlay p of None \<Rightarrow> [] | Some cl \<Rightarrow> [ClassListRemove (lit ''show'')])"
    by (cases "overlay p") (simp_all add: es(1), simp_all add: q_def)
  with es(2) tw' show ?thesis unfolding q_def by blast
qed

lemma completed_v0_effects:
  "\<exists>es. effects (finally_block_v0 (settle_v0 B out (started_v0 p))) =
          effects p @ es @ [SetDisabled False]"
  using settle_v0_effects[of B out "started_v0 p"] by auto

text \<open>
  The copy without overlay, by the way it leaves the \<^verbatim>\<open>try\<close> block: through
  \<^verbatim>\<open>finally\<close> alone, or by one of the two \<^verbatim>\<open>return\<close>s that assign the flag first.
\<close>

lemma completed_v0_effects_late:
  assumes "\<not> early_return out"
  shows "\<exists>es. effects (finally_block_v0 (settle_v0 B out (started_v0 p))) =
          effects p @ SetTextContent [] # SetDisabled True #
            Fetch (chat_request (trim (prompt_value p))) # es @ [SetDisabled False] \<and>
        list_all output_write es"
proof -
  define q where "q = started_v0 p"
  have q0: "out_textContent q = []" by (simp add: q_def)
  from assms have same: "settle_v0 B out q = settle B out q" by (cases out) simp_all
  from settle_effects[OF q0, of B out] obtain es where
    es: "effects (settle B out q) = effects q @ es" "list_all output_write es"
    by blast
  have "effects (finally_block_v0 (settle_v0 B out q)) =
          effects p @ SetTextContent [] # SetDisabled True #
            Fetch (chat_request (trim (prompt_value p))) # es @ [SetDisabled False]"
    by (simp add: same es(1)) (simp add: q_def)
  with es(2) show ?thesis unfolding q_def by blast
qed

lemma completed_v0_effects_early:
  assumes "early_return out"
  shows "\<exists>w. effects (finally_block_v0 (settle_v0 B out (started_v0 p))) =
          effects p @ [SetTextContent [], SetDisabled True,
            Fetch (chat_request (trim (prompt_value p))), SetTextContent w,
            SetDisabled False, SetDisabled False]"
  using assms by (cases out) simp_all

lemma trim_empty_iff: "trim s = [] \<longleftrightarrow> list_all is_white_space s"
proof -
  have "dropWhile P (rev (dropWhile P s)) = [] \<longleftrightarrow> list_all P s" for P :: "code_unit \<Rightarrow> bool"
    by (metis dropWhile_eq_Nil_conv list_all_iff rev_is_Nil_conv set_dropWhileD set_rev dropWhile_idem)
  then show ?thesis by (simp add: trim_def)
qed

subsection \<open>What every completed invocation did\<close>

lemma completed_text_writes:
  "\<exists>ws. text_writes (new_effects p (finally_block (settle B out (started p)))) = [] # ws \<and>
     (case thrown out of
        None \<Rightarrow> appends_from [] ws
      | Some e \<Rightarrow>
          ws \<noteq> [] \<and> appends_from [] (butlast ws) \<and>
          last ws = lit ''Network error: '' @ ToString (js_or (optional_message e) e))"
proof -
  from completed_effects[of B out p] obtain es where
    es: "effects (finally_block (settle B out (started p))) =
       effects p @ SetTextContent [] # SetDisabled True #
         (case overlay p of None \<Rightarrow> [] | Some cl \<Rightarrow> [ClassListAdd (lit ''show'')]) @
         Fetch (chat_request (trim (prompt_value p))) # es @ SetDisabled False #
         (case overlay p of None \<Rightarrow> [] | Some cl \<Rightarrow> [ClassListRemove (lit ''show'')])"
    and tw: "case thrown out of
           None \<Rightarrow> appends_from [] (text_writes es)
         | Some e \<Rightarrow>
             text_writes es \<noteq> [] \<and> appends_from [] (butlast (text_writes es)) \<and>
             last (text_writes es) =
               lit ''Network error: '' @ ToString (js_or (optional_message e) e)"
    by blast
  from es have "text_writes (new_effects p (finally_block (settle B out (started p)))) =
      [] # text_writes es"
    by (cases "overlay p") (simp_all del: settle.simps)
  with tw show ?thesis by blast
qed

lemma completed_requests:
  "requests (new_effects p (finally_block (settle B out (started p)))) =
     [chat_request (trim (prompt_value p))]"
proof -
  from completed_effects[of B out p] obtain es where
    "effects (finally_block (settle B out (started p))) =
       effects p @ SetTextContent [] # SetDisabled True #
         (case overlay p of None \<Rightarrow> [] | Some cl \<Rightarrow> [ClassListAdd (lit ''show'')]) @
         Fetch (chat_request (trim (prompt_value p))) # es @ SetDisabled False #
         (case overlay p of None \<Rightarrow> [] | Some cl \<Rightarrow> [ClassListRemove (lit ''show'')])"
    and "list_all output_write es"
    by blast
  then show ?thesis
    by (cases "overlay p") (simp_all add: requests_output_writes del: settle.simps)
qed

lemma send_adds_effects:
  assumes "send B p = Some p'"
  shows "length (effects p) < length (effects p')"
proof (cases "trim (prompt_value p) = []")
  case True
  with assms show ?thesis by (auto simp: send_empty)
next
  case False
  from send_Some[OF False assms] obtain out where
    p': "p' = finally_block (settle B out (started p))" by blast
  from completed_effects[of B out p] obtain es where
    "effects p' =
       effects p @ SetTextContent [] # SetDisabled True #
         (case overlay p of None \<Rightarrow> [] | Some cl \<Rightarrow> [ClassListAdd (lit ''show'')]) @
         Fetch (chat_request (trim (prompt_value p))) # es @ SetDisabled False #
         (case overlay p of None \<Rightarrow> [] | Some cl \<Rightarrow> [ClassListRemove (lit ''show'')])"
    unfolding p' by blast
  then have "length (effects p') =
      length (effects p) + length (SetTextContent [] # SetDisabled True #
         (case overlay p of None \<Rightarrow> [] | Some cl \<Rightarrow> [ClassListAdd (lit ''show'')]) @
         Fetch (chat_request (trim (prompt_value p))) # es @ SetDisabled False #
         (case overlay p of None \<Rightarrow> [] | Some cl \<Rightarrow> [ClassListRemove (lit ''show'')]))"
    by (simp only: length_append)
  then show ?thesis by simp
qed

subsection \<open>When \<^verbatim>\<open>send\<close> returns\<close>

lemma read_loop_endless:
  assumes "\<forall>i. \<exists>c. reader i = ReadChunk c"
  shows "read_loop B reader i td p = None"
proof (cases "read_loop B reader i td p")
  case (Some res)
  from read_loop_Some[OF this] obtain cs :: "byte list list" where
    "reader (i + length cs) = ReadDone \<or> (\<exists>e. reader (i + length cs) = ReadRejects e)"
    by auto
  moreover from assms obtain c where "reader (i + length cs) = ReadChunk c" by blast
  ultimately show ?thesis by auto
qed simp

lemma send_endless_body:
  assumes "trim (prompt_value p) \<noteq> []"
    and "fetch B (chat_request (trim (prompt_value p))) = Inr res"
    and "ok res" and "body res = Some reader"
    and "\<forall>i. \<exists>c. reader i = ReadChunk c"
  shows "send B p = None"
  using assms(1-4) by (simp add: send_def try_block_def Let_def read_loop_endless[OF assms(5)])

lemma send_returns_iff:
  "send B p \<noteq> None \<longleftrightarrow>
   trim (prompt_value p) = [] \<or> (\<exists>out. exchange B (chat_request (trim (prompt_value p))) out)"
  by (metis send_empty send_exchange send_Some option.distinct(1) option.exhaust)

subsection \<open>The decoder on ASCII\<close>

lemma process_queue_ascii:
  "list_all (\<lambda>b. b \<le> 0x7F) bs \<Longrightarrow>
   process_queue utf8_decoder_new bs = (utf8_decoder_new, map ucast bs)"
  by (induction bs)
     (simp_all add: process_byte_def utf8_handler_def utf8_decoder_new_def)

lemma ucast_ascii_le:
  assumes "b \<le> 0x7F"
  shows "(ucast (b::byte) :: code_point) \<le> 0x7F"
proof -
  from assms have "unat b \<le> 127" by (simp add: word_le_nat_alt)
  then have "take_bit 32 (unat b) = unat b" by (simp add: take_bit_nat_eq_self)
  then have "unat (ucast b :: code_point) = unat b" by (simp add: unsigned_ucast_eq)
  with \<open>unat b \<le> 127\<close> show ?thesis by (simp add: word_le_nat_alt)
qed

lemma ucast_ucast_byte: "(ucast (ucast (b::byte) :: code_point) :: code_unit) = ucast b"
  by (rule bit_word_eqI) (auto simp: bit_ucast_iff dest: bit_imp_le_length)

lemma serialize_io_queue_ascii:
  "list_all (\<lambda>b. b \<le> 0x7F) bs \<Longrightarrow>
   snd (serialize_io_queue bom (map ucast bs)) = map ucast (bs :: byte list)"
proof (induction bs arbitrary: bom)
  case Nil
  show ?case by simp
next
  case (Cons b bs)
  from Cons.prems have "(ucast b :: code_point) \<le> 0x7F"
    by (simp add: ucast_ascii_le)
  then have small: "(ucast b :: code_point) < 0x10000" "(ucast b :: code_point) \<noteq> 0xFEFF"
    by (auto simp: word_le_nat_alt word_less_nat_alt)
  from Cons.prems have "snd (serialize_io_queue True (map ucast bs)) = map ucast bs"
    by (simp add: Cons.IH)
  with small show ?case
    by (auto simp: utf16_encode_def ucast_ucast_byte split: prod.splits)
qed

lemma utf8_decode_ascii:
  assumes "list_all (\<lambda>b. b \<le> 0x7F) bs"
  shows "utf8_decode bs = map ucast bs"
proof -
  have "process_end utf8_decoder_new = (utf8_decoder_new, [])"
    by (simp add: process_end_def utf8_handler_end_def utf8_decoder_new_def)
  with serialize_io_queue_ascii[OF assms, of False] show ?thesis
    by (auto simp: utf8_decode_def decode_def TextDecoder_new_def process_queue_ascii[OF assms]
        split: prod.splits)
qed

lemma utf8_decode_examples:
  "utf8_decode [0xE2, 0x82, 0xAC] = [0x20AC]"
  "utf8_decode [0xF0, 0x9F, 0x98, 0x80] = [0xD83D, 0xDE00]"
  "utf8_decode [0xEF, 0xBB, 0xBF, 0x41] = [0x41]"
  "utf8_decode [0xC0, 0x80] = [0xFFFD, 0xFFFD]"
  "utf8_decode [0xED, 0xA0, 0x80] = [0xFFFD, 0xFFFD, 0xFFFD]"
  "utf8_decode [0x41, 0xE2, 0x82] = [0x41, 0xFFFD]"
  "utf8_decode [0xE2, 0x41] = [0xFFFD, 0x41]"
  by code_simp+

subsection \<open>The concrete pages and browsers\<close>

lemma trim_example: "trim (prompt_value (example_page (lit '' hi ''))) = lit ''hi''"
  by (simp add: example_page_def trim_def lit_def is_white_space_def)

lemma exchange_smile:
  "exchange smile_browser req (Streamed smile_chunks)"
  by (simp add: smile_browser_def answering_def ok_def chunked_def smile_chunks_def)

lemma exchange_bad_request:
  "exchange bad_request_browser req (ErrorStatus 400 (lit ''bad request''))"
  by (simp add: bad_request_browser_def answering_def ok_def)

lemma exchange_interrupted:
  "exchange interrupted_browser req (ReadRejected [[0x48, 0x69]] timeout_error)"
  by (simp add: interrupted_browser_def answering_def ok_def chunked_def)

lemma send_busy_page:
  "send B busy_page = Some (set_textContent (lit ''Please enter a message.'') busy_page)"
  by (rule send_empty) (simp add: busy_page_def trim_def lit_def is_white_space_def)

section \<open>The claims\<close>

text \<open>
  C1. When the response is successful and its body delivers the chunks \<open>cs\<close> and
  then signals completion, \<^verbatim>\<open>send\<close> returns and the text in the output area is the
  UTF-8 decoding of the concatenation of the chunks, whatever their number and wherever
  their boundaries fall, also inside a multi-byte character. This holds for both copies
  of the script.
\<close>

theorem streamed_text_is_decoding_of_concatenation:
  assumes "trim (prompt_value p) \<noteq> []"
    and "exchange B (chat_request (trim (prompt_value p))) (Streamed cs)"
  shows "(\<exists>p'. send B p = Some p' \<and> out_textContent p' = utf8_decode (concat cs)) \<and>
         (\<exists>p'. send_v0 B p = Some p' \<and> out_textContent p' = utf8_decode (concat cs))"
  using send_exchange[OF assms] send_v0_exchange[OF assms]
  by (simp add: settle_streamed_text utf8_decode_def del: settle.simps)

theorem streamed_text_is_decoding_of_concatenation_witness:
  "trim (prompt_value (example_page (lit '' hi ''))) \<noteq> [] \<and>
   exchange smile_browser (chat_request (trim (prompt_value (example_page (lit '' hi '')))))
     (Streamed smile_chunks) \<and>
   (\<exists>p'. send smile_browser (example_page (lit '' hi '')) = Some p' \<and>
      out_textContent p' = [0x68, 0xE9, 0xD83D, 0xDE00]) \<and>
   (\<exists>p'. send_v0 smile_browser (example_page (lit '' hi '')) = Some p' \<and>
      out_textContent p' = [0x68, 0xE9, 0xD83D, 0xDE00])"
proof -
  have filled: "trim (prompt_value (example_page (lit '' hi ''))) \<noteq> []"
    unfolding trim_example by (simp add: lit_def)
  have shown: "utf8_decode (concat smile_chunks) = [0x68, 0xE9, 0xD83D, 0xDE00]"
    by code_simp
  from streamed_text_is_decoding_of_concatenation[OF filled exchange_smile] filled exchange_smile shown
  show ?thesis by simp
qed

text \<open>
  C2. When the trimmed value of the prompt field is the empty string (by
  \<open>trim_empty_iff\<close>: when the field holds nothing but white space), \<^verbatim>\<open>send\<close>
  returns with the text ``Please enter a message.'' in the output area and has issued no
  network request.
\<close>

theorem empty_prompt_rejected:
  assumes "trim (prompt_value p) = []"
  shows "\<exists>p'. send B p = Some p' \<and> out_textContent p' = lit ''Please enter a message.'' \<and>
           requests (new_effects p p') = []"
  using assms by (simp add: send_empty)

theorem empty_prompt_rejected_witness:
  "trim (prompt_value busy_page) = [] \<and>
   (\<exists>p'. send (unreachable Undefined) busy_page = Some p' \<and>
      out_textContent p' = lit ''Please enter a message.'' \<and>
      requests (new_effects busy_page p') = [])"
proof -
  have blank: "trim (prompt_value busy_page) = []"
    by (simp add: busy_page_def trim_def lit_def is_white_space_def)
  from empty_prompt_rejected[OF blank] blank show ?thesis by blast
qed

text \<open>
  C3, as amended. When the trimmed prompt is not empty, \<^verbatim>\<open>send\<close> returns in every
  outcome of the exchange, having re-enabled the button exactly once and, when the page
  has a loading overlay, removed its \<^verbatim>\<open>show\<close> class exactly once; the button is
  enabled and the overlay is not shown afterwards. The copy of the script without
  overlay returns in every outcome with the button enabled, and has re-enabled it
  exactly once when it leaves by the end of the stream or by a thrown value. When the
  trimmed prompt is empty, both copies return before the \<^verbatim>\<open>try\<close> block: no cleanup
  runs, and the button and the overlay stay as they were.
\<close>

theorem cleanup_once_after_validation:
  "(trim (prompt_value p) \<noteq> [] \<and> exchange B (chat_request (trim (prompt_value p))) out \<longrightarrow>
      (\<exists>p'. send B p = Some p' \<and>
         count_list (new_effects p p') (SetDisabled False) = 1 \<and>
         count_list (new_effects p p') (ClassListRemove (lit ''show'')) =
           (if overlay p = None then 0 else 1) \<and>
         \<not> sendBtn_disabled p' \<and>
         (\<forall>cl. overlay p' = Some cl \<longrightarrow> lit ''show'' \<notin> set cl)) \<and>
      (\<exists>p'. send_v0 B p = Some p' \<and> \<not> sendBtn_disabled p' \<and>
         (\<not> early_return out \<longrightarrow>
            count_list (new_effects p p') (SetDisabled False) = 1))) \<and>
   (trim (prompt_value p) = [] \<longrightarrow>
      (\<exists>p'. send B p = Some p' \<and>
         count_list (new_effects p p') (SetDisabled False) = 0 \<and>
         count_list (new_effects p p') (ClassListRemove (lit ''show'')) = 0 \<and>
         sendBtn_disabled p' = sendBtn_disabled p \<and> overlay p' = overlay p) \<and>
      (\<exists>p'. send_v0 B p = Some p' \<and>
         count_list (new_effects p p') (SetDisabled False) = 0 \<and>
         count_list (new_effects p p') (ClassListRemove (lit ''show'')) = 0 \<and>
         sendBtn_disabled p' = sendBtn_disabled p \<and> overlay p' = overlay p))"
proof (intro conjI impI)
  assume a: "trim (prompt_value p) \<noteq> [] \<and> exchange B (chat_request (trim (prompt_value p))) out"
  then have filled: "trim (prompt_value p) \<noteq> []"
    and ex: "exchange B (chat_request (trim (prompt_value p))) out" by simp_all
  define p' where "p' = finally_block (settle B out (started p))"
  have run: "send B p = Some p'" unfolding p'_def by (rule send_exchange[OF filled ex])
  from completed_effects[of B out p] obtain es where
    es: "effects p' =
       effects p @ SetTextContent [] # SetDisabled True #
         (case overlay p of None \<Rightarrow> [] | Some cl \<Rightarrow> [ClassListAdd (lit ''show'')]) @
         Fetch (chat_request (trim (prompt_value p))) # es @ SetDisabled False #
         (case overlay p of None \<Rightarrow> [] | Some cl \<Rightarrow> [ClassListRemove (lit ''show'')])"
    and ow: "list_all output_write es"
    unfolding p'_def by blast
  from ow have none: "count_list es (SetDisabled False) = 0"
    "count_list es (ClassListRemove (lit ''show'')) = 0"
    by (simp_all add: count_output_writes)
  from es none have c1: "count_list (new_effects p p') (SetDisabled False) = 1"
    by (cases "overlay p") simp_all
  from es none have c2: "count_list (new_effects p p') (ClassListRemove (lit ''show'')) =
      (if overlay p = None then 0 else 1)"
    by (cases "overlay p") simp_all
  have c3: "\<not> sendBtn_disabled p'" by (simp add: p'_def)
  have c4: "\<forall>cl. overlay p' = Some cl \<longrightarrow> lit ''show'' \<notin> set cl"
    by (auto simp: p'_def)
  from run c1 c2 c3 c4
  show "\<exists>p'. send B p = Some p' \<and>
         count_list (new_effects p p') (SetDisabled False) = 1 \<and>
         count_list (new_effects p p') (ClassListRemove (lit ''show'')) =
           (if overlay p = None then 0 else 1) \<and>
         \<not> sendBtn_disabled p' \<and>
         (\<forall>cl. overlay p' = Some cl \<longrightarrow> lit ''show'' \<notin> set cl)"
    by blast
  define r where "r = finally_block_v0 (settle_v0 B out (started_v0 p))"
  have run0: "send_v0 B p = Some r" unfolding r_def by (rule send_v0_exchange[OF filled ex])
  have d1: "\<not> sendBtn_disabled r" by (simp add: r_def)
  have d2: "count_list (new_effects p r) (SetDisabled False) = 1" if late: "\<not> early_return out"
  proof -
    from completed_v0_effects_late[OF late, of B p] obtain es where
      es: "effects r = effects p @ SetTextContent [] # SetDisabled True #
            Fetch (chat_request (trim (prompt_value p))) # es @ [SetDisabled False]"
      and ow: "list_all output_write es"
      unfolding r_def by blast
    from ow have "count_list es (SetDisabled False) = 0" by (simp add: count_output_writes)
    with es show ?thesis by simp
  qed
  from run0 d1 d2
  show "\<exists>p'. send_v0 B p = Some p' \<and> \<not> sendBtn_disabled p' \<and>
         (\<not> early_return out \<longrightarrow> count_list (new_effects p p') (SetDisabled False) = 1)"
    by blast
next
  assume blank: "trim (prompt_value p) = []"
  show "\<exists>p'. send B p = Some p' \<and>
         count_list (new_effects p p') (SetDisabled False) = 0 \<and>
         count_list (new_effects p p') (ClassListRemove (lit ''show'')) = 0 \<and>
         sendBtn_disabled p' = sendBtn_disabled p \<and> overlay p' = overlay p"
    by (simp add: send_empty[OF blank])
  show "\<exists>p'. send_v0 B p = Some p' \<and>
         count_list (new_effects p p') (SetDisabled False) = 0 \<and>
         count_list (new_effects p p') (ClassListRemove (lit ''show'')) = 0 \<and>
         sendBtn_disabled p' = sendBtn_disabled p \<and> overlay p' = overlay p"
    by (simp add: send_v0_empty[OF blank])
qed

theorem cleanup_once_after_validation_witness:
  "trim (prompt_value (example_page (lit '' hi ''))) \<noteq> [] \<and>
   exchange smile_browser (chat_request (trim (prompt_value (example_page (lit '' hi '')))))
     (Streamed smile_chunks) \<and>
   \<not> early_return (Streamed smile_chunks) \<and>
   (\<exists>p'. send smile_browser (example_page (lit '' hi '')) = Some p' \<and>
      count_list (new_effects (example_page (lit '' hi '')) p') (SetDisabled False) = 1 \<and>
      count_list (new_effects (example_page (lit '' hi '')) p') (ClassListRemove (lit ''show'')) = 1 \<and>
      \<not> sendBtn_disabled p') \<and>
   (\<exists>p'. send_v0 smile_browser (example_page (lit '' hi '')) = Some p' \<and>
      \<not> sendBtn_disabled p' \<and>
      count_list (new_effects (example_page (lit '' hi '')) p') (SetDisabled False) = 1) \<and>
   trim (prompt_value busy_page) = [] \<and>
   (\<exists>p'. send smile_browser busy_page = Some p' \<and>
      count_list (new_effects busy_page p') (SetDisabled False) = 0 \<and>
      sendBtn_disabled p' = sendBtn_disabled busy_page) \<and>
   (\<exists>p'. send_v0 smile_browser busy_page = Some p' \<and>
      count_list (new_effects busy_page p') (SetDisabled False) = 0 \<and>
      sendBtn_disabled p' = sendBtn_disabled busy_page)"
proof -
  let ?p = "example_page (lit '' hi '')"
  have filled: "trim (prompt_value ?p) \<noteq> []"
    unfolding trim_example by (simp add: lit_def)
  have blank: "trim (prompt_value busy_page) = []"
    by (simp add: busy_page_def trim_def lit_def is_white_space_def)
  have ov: "overlay ?p \<noteq> None" by (simp add: example_page_def)
  have late: "\<not> early_return (Streamed smile_chunks)" by simp
  from cleanup_once_after_validation[of ?p smile_browser "Streamed smile_chunks"]
    filled exchange_smile ov late
  have "(\<exists>p'. send smile_browser ?p = Some p' \<and>
      count_list (new_effects ?p p') (SetDisabled False) = 1 \<and>
      count_list (new_effects ?p p') (ClassListRemove (lit ''show'')) = 1 \<and>
      \<not> sendBtn_disabled p') \<and>
   (\<exists>p'. send_v0 smile_browser ?p = Some p' \<and> \<not> sendBtn_disabled p' \<and>
      count_list (new_effects ?p p') (SetDisabled False) = 1)"
    by auto
  moreover from cleanup_once_after_validation[of busy_page smile_browser "Streamed smile_chunks"]
    blank
  have "(\<exists>p'. send smile_browser busy_page = Some p' \<and>
      count_list (new_effects busy_page p') (SetDisabled False) = 0 \<and>
      sendBtn_disabled p' = sendBtn_disabled busy_page) \<and>
   (\<exists>p'. send_v0 smile_browser busy_page = Some p' \<and>
      count_list (new_effects busy_page p') (SetDisabled False) = 0 \<and>
      sendBtn_disabled p' = sendBtn_disabled busy_page)"
    by auto
  ultimately show ?thesis using filled blank exchange_smile late by blast
qed

text \<open>
  C3 as stated fails on the empty-input return: on a page whose button is disabled and
  whose overlay is shown, with blanks in the prompt field, \<^verbatim>\<open>send\<close> re-enables nothing
  and hides nothing.
\<close>

theorem cleanup_skipped_on_empty_prompt_counterexample:
  "send (unreachable Undefined) busy_page \<noteq> None \<and>
   count_list (new_effects busy_page (the (send (unreachable Undefined) busy_page)))
     (SetDisabled False) = 0 \<and>
   sendBtn_disabled (the (send (unreachable Undefined) busy_page)) \<and>
   overlay (the (send (unreachable Undefined) busy_page)) = Some [lit ''overlay'', lit ''show'']"
  by (simp add: send_busy_page) (simp add: busy_page_def)

text \<open>
  C4. When the response has a non-success status \<open>S\<close> and its text is \<open>b\<close>,
  \<^verbatim>\<open>send\<close> returns with the text ``Error \<open>S\<close>: \<open>b\<close>'' in the output area, and the
  one request of the invocation is the only one issued.
\<close>

theorem error_status_displayed:
  assumes "trim (prompt_value p) \<noteq> []"
    and "exchange B (chat_request (trim (prompt_value p))) (ErrorStatus S b)"
  shows "\<exists>p'. send B p = Some p' \<and>
           out_textContent p' = lit ''Error '' @ Number_toString S @ lit '': '' @ b \<and>
           requests (new_effects p p') = [chat_request (trim (prompt_value p))]"
proof -
  from completed_effects[of B "ErrorStatus S b" p] obtain es where
    "effects (finally_block (settle B (ErrorStatus S b) (started p))) =
       effects p @ SetTextContent [] # SetDisabled True #
         (case overlay p of None \<Rightarrow> [] | Some cl \<Rightarrow> [ClassListAdd (lit ''show'')]) @
         Fetch (chat_request (trim (prompt_value p))) # es @ SetDisabled False #
         (case overlay p of None \<Rightarrow> [] | Some cl \<Rightarrow> [ClassListRemove (lit ''show'')])"
    and "list_all output_write es"
    by blast
  then have "requests (new_effects p (finally_block (settle B (ErrorStatus S b) (started p)))) =
      [chat_request (trim (prompt_value p))]"
    by (cases "overlay p") (simp_all add: requests_output_writes del: settle.simps)
  with send_exchange[OF assms] show ?thesis by simp
qed

theorem error_status_displayed_witness:
  "trim (prompt_value (example_page (lit '' hi ''))) \<noteq> [] \<and>
   exchange bad_request_browser (chat_request (trim (prompt_value (example_page (lit '' hi '')))))
     (ErrorStatus 400 (lit ''bad request'')) \<and>
   (\<exists>p'. send bad_request_browser (example_page (lit '' hi '')) = Some p' \<and>
      out_textContent p' = lit ''Error 400: bad request'' \<and>
      requests (new_effects (example_page (lit '' hi '')) p') =
        [chat_request (trim (prompt_value (example_page (lit '' hi ''))))])"
proof -
  have filled: "trim (prompt_value (example_page (lit '' hi ''))) \<noteq> []"
    unfolding trim_example by (simp add: lit_def)
  have ex: "exchange bad_request_browser (chat_request (trim (prompt_value (example_page (lit '' hi '')))))
     (ErrorStatus 400 (lit ''bad request''))"
    by (simp add: bad_request_browser_def answering_def ok_def)
  have shown: "lit ''Error '' @ Number_toString 400 @ lit '': '' @ lit ''bad request'' =
      lit ''Error 400: bad request''"
    by (simp add: Number_toString.simps lit_def)
  from error_status_displayed[OF filled ex] filled ex shown show ?thesis by simp
qed

text \<open>
  C5, as amended. When the fetch, the reading of an error body or a read of the stream
  throws the value \<open>e\<close>, \<^verbatim>\<open>send\<close> returns with ``Network error: '' in the output
  area, followed by the string conversion of \<^verbatim>\<open>e?.message || e\<close>: the message of an
  error object when that message is not empty, and the name of the error object when
  its message is empty.
\<close>

theorem thrown_value_displayed:
  assumes "trim (prompt_value p) \<noteq> []"
    and "exchange B (chat_request (trim (prompt_value p))) out"
    and "thrown out = Some e"
  shows "\<exists>p'. send B p = Some p' \<and>
           out_textContent p' = lit ''Network error: '' @ ToString (js_or (optional_message e) e) \<and>
           (\<forall>n m. e = ErrorObject n m \<and> m \<noteq> [] \<longrightarrow>
              out_textContent p' = lit ''Network error: '' @ m) \<and>
           (\<forall>n. e = ErrorObject n [] \<longrightarrow> out_textContent p' = lit ''Network error: '' @ n)"
proof -
  from assms(3) have "out_textContent (finally_block (settle B out (started p))) =
      lit ''Network error: '' @ ToString (js_or (optional_message e) e)"
    by (cases out) simp_all
  with send_exchange[OF assms(1,2)] show ?thesis
    by (auto simp: js_or_def)
qed

theorem thrown_value_displayed_witness:
  "trim (prompt_value (example_page (lit '' hi ''))) \<noteq> [] \<and>
   exchange (unreachable timeout_error)
     (chat_request (trim (prompt_value (example_page (lit '' hi ''))))) (FetchRejected timeout_error) \<and>
   thrown (FetchRejected timeout_error) = Some timeout_error \<and>
   (\<exists>p'. send (unreachable timeout_error) (example_page (lit '' hi '')) = Some p' \<and>
      out_textContent p' = lit ''Network error: timeout'')"
proof -
  have filled: "trim (prompt_value (example_page (lit '' hi ''))) \<noteq> []"
    unfolding trim_example by (simp add: lit_def)
  have ex: "exchange (unreachable timeout_error)
     (chat_request (trim (prompt_value (example_page (lit '' hi ''))))) (FetchRejected timeout_error)"
    by (simp add: unreachable_def)
  have th: "thrown (FetchRejected timeout_error) = Some timeout_error" by simp
  have shown: "lit ''Network error: '' @ ToString (js_or (optional_message timeout_error) timeout_error) =
      lit ''Network error: timeout''"
    by (simp add: timeout_error_def js_or_def lit_def)
  from thrown_value_displayed[OF filled ex th] filled ex th shown show ?thesis
    by auto
qed

text \<open>
  C5 as stated fails for an error whose message is empty: the text shown is
  ``Network error: Error'', not ``Network error: '' followed by the empty message.
\<close>

theorem empty_message_shows_error_name_counterexample:
  "send (unreachable (ErrorObject (lit ''Error'') [])) (example_page (lit '' hi '')) \<noteq> None \<and>
   out_textContent (the (send (unreachable (ErrorObject (lit ''Error'') []))
     (example_page (lit '' hi '')))) = lit ''Network error: Error'' \<and>
   lit ''Network error: Error'' \<noteq>
     lit ''Network error: '' @ error_message (ErrorObject (lit ''Error'') [])"
proof -
  let ?e = "ErrorObject (lit ''Error'') []"
  have filled: "trim (prompt_value (example_page (lit '' hi ''))) \<noteq> []"
    unfolding trim_example by (simp add: lit_def)
  have ex: "exchange (unreachable ?e)
     (chat_request (trim (prompt_value (example_page (lit '' hi ''))))) (FetchRejected ?e)"
    by (simp add: unreachable_def)
  have "lit ''Network error: '' @ ToString (js_or (optional_message ?e) ?e) =
      lit ''Network error: Error''"
    by (simp add: js_or_def lit_def)
  with send_exchange[OF filled ex] show ?thesis
    by (simp add: lit_def)
qed

text \<open>
  C6. When the response is successful and has no body, \<^verbatim>\<open>send\<close> returns with the
  text ``Streaming not supported by the browser/connection.'' in the output area, and
  the one request of the invocation is the only one issued.
\<close>

theorem no_body_displayed:
  assumes "trim (prompt_value p) \<noteq> []"
    and "exchange B (chat_request (trim (prompt_value p))) NoBody"
  shows "\<exists>p'. send B p = Some p' \<and>
           out_textContent p' = lit ''Streaming not supported by the browser/connection.'' \<and>
           requests (new_effects p p') = [chat_request (trim (prompt_value p))]"
proof -
  from completed_effects[of B NoBody p] obtain es where
    "effects (finally_block (settle B NoBody (started p))) =
       effects p @ SetTextContent [] # SetDisabled True #
         (case overlay p of None \<Rightarrow> [] | Some cl \<Rightarrow> [ClassListAdd (lit ''show'')]) @
         Fetch (chat_request (trim (prompt_value p))) # es @ SetDisabled False #
         (case overlay p of None \<Rightarrow> [] | Some cl \<Rightarrow> [ClassListRemove (lit ''show'')])"
    and "list_all output_write es"
    by blast
  then have "requests (new_effects p (finally_block (settle B NoBody (started p)))) =
      [chat_request (trim (prompt_value p))]"
    by (cases "overlay p") (simp_all add: requests_output_writes del: settle.simps)
  with send_exchange[OF assms] show ?thesis by simp
qed

theorem no_body_displayed_witness:
  "trim (prompt_value (example_page (lit '' hi ''))) \<noteq> [] \<and>
   exchange bodyless_browser (chat_request (trim (prompt_value (example_page (lit '' hi ''))))) NoBody \<and>
   (\<exists>p'. send bodyless_browser (example_page (lit '' hi '')) = Some p' \<and>
      out_textContent p' = lit ''Streaming not supported by the browser/connection.'' \<and>
      requests (new_effects (example_page (lit '' hi '')) p') =
        [chat_request (trim (prompt_value (example_page (lit '' hi ''))))])"
proof -
  have filled: "trim (prompt_value (example_page (lit '' hi ''))) \<noteq> []"
    unfolding trim_example by (simp add: lit_def)
  have ex: "exchange bodyless_browser (chat_request (trim (prompt_value (example_page (lit '' hi ''))))) NoBody"
    by (simp add: bodyless_browser_def answering_def ok_def)
  from no_body_displayed[OF filled ex] filled ex show ?thesis by simp
qed

text \<open>
  C7, as amended. When the trimmed prompt is not empty, the first write to the output
  area clears it. When nothing is thrown, every later write extends the text it
  replaces. When a value is thrown, this holds for every write but the last one, which
  replaces the text with the network error message.
\<close>

theorem output_cleared_then_appended:
  assumes "trim (prompt_value p) \<noteq> []"
    and "exchange B (chat_request (trim (prompt_value p))) out"
  shows "\<exists>p' ws. send B p = Some p' \<and> text_writes (new_effects p p') = [] # ws \<and>
           (case thrown out of
              None \<Rightarrow> appends_from [] ws
            | Some e \<Rightarrow>
                ws \<noteq> [] \<and> appends_from [] (butlast ws) \<and>
                last ws = lit ''Network error: '' @ ToString (js_or (optional_message e) e))"
  using send_exchange[OF assms] completed_text_writes[of p B out] by blast

theorem output_cleared_then_appended_witness:
  "trim (prompt_value (example_page (lit '' hi ''))) \<noteq> [] \<and>
   exchange smile_browser (chat_request (trim (prompt_value (example_page (lit '' hi '')))))
     (Streamed smile_chunks) \<and>
   (\<exists>p' ws. send smile_browser (example_page (lit '' hi '')) = Some p' \<and>
      text_writes (new_effects (example_page (lit '' hi '')) p') = [] # ws \<and>
      appends_from [] ws)"
proof -
  have filled: "trim (prompt_value (example_page (lit '' hi ''))) \<noteq> []"
    unfolding trim_example by (simp add: lit_def)
  from output_cleared_then_appended[OF filled exchange_smile] filled exchange_smile
  show ?thesis by simp
qed

text \<open>
  C7 as stated fails when a read is rejected after a chunk has been shown: the text
  ``Hi'' is replaced by ``Network error: timeout''.
\<close>

theorem read_error_overwrites_output_counterexample:
  "send interrupted_browser (example_page (lit '' hi '')) \<noteq> None \<and>
   text_writes (new_effects (example_page (lit '' hi ''))
     (the (send interrupted_browser (example_page (lit '' hi ''))))) =
     [[], lit ''Hi'', lit ''Network error: timeout''] \<and>
   \<not> appends_from [] [lit ''Hi'', lit ''Network error: timeout'']"
proof -
  let ?p = "example_page (lit '' hi '')"
  have filled: "trim (prompt_value ?p) \<noteq> []"
    unfolding trim_example by (simp add: lit_def)
  have run: "send interrupted_browser ?p =
      Some (finally_block (settle interrupted_browser (ReadRejected [[0x48, 0x69]] timeout_error) (started ?p)))"
    by (rule send_exchange[OF filled exchange_interrupted])
  have dec: "decode TextDecoder_new [0x48, 0x69] True =
      (\<lparr>decoder = utf8_decoder_new, BOM_seen = True, do_not_flush = True\<rparr>, lit ''Hi'')"
    by code_simp
  have "effects (finally_block (settle interrupted_browser (ReadRejected [[0x48, 0x69]] timeout_error) (started ?p))) =
      effects ?p @ [SetTextContent [], SetDisabled True, ClassListAdd (lit ''show''),
        Fetch (chat_request (trim (prompt_value ?p))),
        SetTextContent (lit ''Hi''), SetScrollTop 2,
        SetTextContent (lit ''Network error: timeout''), SetDisabled False,
        ClassListRemove (lit ''show'')]"
    by (simp add: dec) (simp add: example_page_def interrupted_browser_def answering_def
        timeout_error_def js_or_def lit_def)
  then have "text_writes (new_effects ?p (finally_block (settle interrupted_browser
      (ReadRejected [[0x48, 0x69]] timeout_error) (started ?p)))) =
      [[], lit ''Hi'', lit ''Network error: timeout'']"
    by (simp del: settle.simps)
  moreover have "\<not> appends_from [] [lit ''Hi'', lit ''Network error: timeout'']"
    by (simp add: lit_def)
  ultimately show ?thesis by (simp add: run del: settle.simps)
qed

text \<open>
  C8. When the trimmed prompt \<open>P\<close> is not empty, \<^verbatim>\<open>send\<close> returns in every outcome
  of the exchange, having issued exactly one request: a POST to \<^verbatim>\<open>/chat/stream\<close>
  with the header \<^verbatim>\<open>Content-Type: application/json\<close> and the JSON serialisation of
  the object with the single property \<^verbatim>\<open>prompt\<close> = \<open>P\<close> as its body.
\<close>

theorem one_post_request:
  assumes "trim (prompt_value p) \<noteq> []"
    and "exchange B (chat_request (trim (prompt_value p))) out"
  shows "\<exists>p'. send B p = Some p' \<and>
           requests (new_effects p p') =
             [\<lparr>request_url = lit ''/chat/stream'', request_method = lit ''POST'',
               request_headers = [(lit ''Content-Type'', lit ''application/json'')],
               request_body = JSON_stringify_prompt (trim (prompt_value p))\<rparr>]"
  using send_exchange[OF assms] completed_requests[of p B out] by (simp add: chat_request_def)

theorem one_post_request_witness:
  "trim (prompt_value (example_page (lit '' hi ''))) \<noteq> [] \<and>
   exchange smile_browser (chat_request (trim (prompt_value (example_page (lit '' hi '')))))
     (Streamed smile_chunks) \<and>
   (\<exists>p'. send smile_browser (example_page (lit '' hi '')) = Some p' \<and>
      requests (new_effects (example_page (lit '' hi '')) p') =
        [\<lparr>request_url = lit ''/chat/stream'', request_method = lit ''POST'',
          request_headers = [(lit ''Content-Type'', lit ''application/json'')],
          request_body =
            lit (''{'' @ [CHR 0x22] @ ''prompt'' @ [CHR 0x22] @ '':'' @ [CHR 0x22] @ ''hi'' @
                 [CHR 0x22] @ ''}'')\<rparr>])"
proof -
  let ?p = "example_page (lit '' hi '')"
  have filled: "trim (prompt_value ?p) \<noteq> []"
    unfolding trim_example by (simp add: lit_def)
  have "JSON_stringify_prompt (lit ''hi'') =
      lit (''{'' @ [CHR 0x22] @ ''prompt'' @ [CHR 0x22] @ '':'' @ [CHR 0x22] @ ''hi'' @
           [CHR 0x22] @ ''}'')"
    by code_simp
  with one_post_request[OF filled exchange_smile] filled exchange_smile show ?thesis
    by (simp add: trim_example)
qed

text \<open>
  C9. On a key-down event for the Enter key, the listener calls \<^verbatim>\<open>send\<close> when Ctrl or
  the meta key is held, and otherwise leaves the page as it is, which \<^verbatim>\<open>send\<close> never
  does.
\<close>

theorem enter_needs_accelerator:
  "(key e = lit ''Enter'' \<and> (ctrlKey e \<or> metaKey e) \<longrightarrow> keydown_listener B e p = send B p) \<and>
   (key e = lit ''Enter'' \<and> \<not> ctrlKey e \<and> \<not> metaKey e \<longrightarrow>
      keydown_listener B e p = Some p \<and> send B p \<noteq> Some p)"
  using send_adds_effects[of B p p] by (auto simp: keydown_listener_def)

theorem enter_needs_accelerator_witness:
  "key \<lparr>key = lit ''Enter'', ctrlKey = False, metaKey = True\<rparr> = lit ''Enter'' \<and>
   keydown_listener smile_browser \<lparr>key = lit ''Enter'', ctrlKey = False, metaKey = True\<rparr>
       (example_page (lit '' hi '')) =
     send smile_browser (example_page (lit '' hi '')) \<and>
   key \<lparr>key = lit ''Enter'', ctrlKey = False, metaKey = False\<rparr> = lit ''Enter'' \<and>
   keydown_listener smile_browser \<lparr>key = lit ''Enter'', ctrlKey = False, metaKey = False\<rparr>
       (example_page (lit '' hi '')) = Some (example_page (lit '' hi '')) \<and>
   send smile_browser (example_page (lit '' hi '')) \<noteq> Some (example_page (lit '' hi ''))"
  using
    enter_needs_accelerator[of "\<lparr>key = lit ''Enter'', ctrlKey = False, metaKey = True\<rparr>"
      smile_browser "example_page (lit '' hi '')"]
    enter_needs_accelerator[of "\<lparr>key = lit ''Enter'', ctrlKey = False, metaKey = False\<rparr>"
      smile_browser "example_page (lit '' hi '')"]
  by simp

text \<open>
  C10. Whenever \<^verbatim>\<open>send\<close> returns, in either copy of the script, the value of the
  prompt field is the one it had at the call.
\<close>

theorem prompt_field_unchanged:
  "(\<forall>p'. send B p = Some p' \<longrightarrow> prompt_value p' = prompt_value p) \<and>
   (\<forall>p'. send_v0 B p = Some p' \<longrightarrow> prompt_value p' = prompt_value p)"
proof (intro conjI allI impI)
  fix p' assume run: "send B p = Some p'"
  show "prompt_value p' = prompt_value p"
  proof (cases "trim (prompt_value p) = []")
    case True
    with run show ?thesis by (auto simp: send_empty)
  next
    case False
    from send_Some[OF False run] show ?thesis by auto
  qed
next
  fix p' assume run: "send_v0 B p = Some p'"
  show "prompt_value p' = prompt_value p"
  proof (cases "trim (prompt_value p) = []")
    case True
    with run show ?thesis by (auto simp: send_v0_empty)
  next
    case False
    from send_v0_Some[OF False run] show ?thesis by auto
  qed
qed

theorem prompt_field_unchanged_witness:
  "send smile_browser (example_page (lit '' hi '')) \<noteq> None \<and>
   prompt_value (the (send smile_browser (example_page (lit '' hi '')))) = lit '' hi '' \<and>
   send_v0 smile_browser (example_page (lit '' hi '')) \<noteq> None \<and>
   prompt_value (the (send_v0 smile_browser (example_page (lit '' hi '')))) = lit '' hi ''"
proof -
  let ?p = "example_page (lit '' hi '')"
  have filled: "trim (prompt_value ?p) \<noteq> []"
    unfolding trim_example by (simp add: lit_def)
  obtain q where q: "send smile_browser ?p = Some q"
    using send_exchange[OF filled exchange_smile] by blast
  obtain q0 where q0: "send_v0 smile_browser ?p = Some q0"
    using send_v0_exchange[OF filled exchange_smile] by blast
  have "prompt_value ?p = lit '' hi ''" by (simp add: example_page_def)
  with prompt_field_unchanged[of smile_browser ?p] q q0 show ?thesis by simp
qed

end
